theory Spec2Isabelle
  imports Complex_Main "HOL-Library.Word"
begin

unbundle bit_operations_syntax

section \<open>Values of the program\<close>

text \<open>
  The development embeds \<^verbatim>\<open>src/vpk.ts\<close> (class \<^verbatim>\<open>Vpk\<close> and the
  module-level helpers behind it).

  \<^item> A JavaScript string is a \<^typ>\<open>string\<close>: the list of its UTF-16 code units, for code
    units below 256, so \<^verbatim>\<open>s.length\<close> is \<^term>\<open>length s\<close>.
  \<^item> A \<^verbatim>\<open>Buffer\<close> is a list of bytes; the content of a file is one too.
  \<^item> Sizes, offsets and counts are natural numbers (JavaScript numbers holding
    non-negative integers far below \<open>2^53\<close>); the version is an integer.
  \<^item> A thrown \<^verbatim>\<open>Error\<close> is a value of \<open>error\<close>, named after the message:
    'Version must be 1 or 2.' is \<open>VersionError\<close>, 'File ... already exists in VPK.' is
    \<open>DuplicateEntry\<close>, 'The directory or file at ... is inaccessible or does not
    exist.' is \<open>PathUnavailable\<close>, 'File missing header magic' is \<open>BadMagic\<close>, 'Respawn
    uses a customized VPK format ...' is \<open>UnsupportedVariant\<close>, 'Header hashes length
    mismatch' is \<open>MalformedHeader\<close>, 'Error parsing index (out of bounds)' is
    \<open>IndexOutOfBounds\<close>, 'Error while parsing index' is \<open>CorruptEntry\<close>. \<open>RangeError\<close>
    is what \<^verbatim>\<open>writeUInt32LE\<close> throws for a value that does not fit, \<open>InvalidArgument\<close>
    what \<^verbatim>\<open>fs.writeSync\<close> throws for a value that is no buffer, and \<open>IOError\<close> what
    \<^verbatim>\<open>fs.openSync\<close> throws for a file that is not there.
\<close>

type_synonym byte = "8 word"
type_synonym bytes = "byte list"

datatype error =
    VersionError | DuplicateEntry | PathUnavailable | BadMagic | UnsupportedVariant
  | MalformedHeader | IndexOutOfBounds | CorruptEntry | RangeError | InvalidArgument
  | IOError

subsection \<open>Objects used as dictionaries\<close>

text \<open>
  The tree is a plain object used as a dictionary of dictionaries of arrays. An object is
  modelled by its own properties, as the list of (key, value) pairs in the order the keys
  were created. Assigning to a key that exists keeps its place; assigning to a new key
  appends it. Keys that an object inherits from \<^verbatim>\<open>Object.prototype\<close> (such as
  \<^verbatim>\<open>constructor\<close>) are outside the model.
\<close>

type_synonym 'v obj = "(string \<times> 'v) list"

definition has :: "string \<Rightarrow> 'v obj \<Rightarrow> bool" where
  "has k ob = (map_of ob k \<noteq> None)"

fun put :: "'v obj \<Rightarrow> string \<Rightarrow> 'v \<Rightarrow> 'v obj" where
  "put [] k v = [(k, v)]"
| "put ((k', v') # kvs) k v = (if k' = k then (k, v) # kvs else (k', v') # put kvs k v)"

text \<open>
  \<^verbatim>\<open>for (const k in ob)\<close> visits the keys that are array indices (canonical decimal
  numerals below \<open>2^32 - 1\<close>) first, in ascending numeric order, then the other keys in
  creation order.
\<close>

definition isDigit :: "char \<Rightarrow> bool" where
  "isDigit c = (48 \<le> (of_char c :: nat) \<and> (of_char c :: nat) \<le> 57)"

definition decimal :: "string \<Rightarrow> nat" where
  "decimal k = foldl (\<lambda>n c. 10 * n + ((of_char c :: nat) - 48)) 0 k"

definition arrayIndex :: "string \<Rightarrow> nat option" where
  "arrayIndex k =
     (case k of
        [] \<Rightarrow> None
      | c # cs \<Rightarrow>
          if list_all isDigit k \<and> (c \<noteq> CHR ''0'' \<or> cs = []) \<and> decimal k < 4294967295
          then Some (decimal k) else None)"

definition indexKey :: "string \<times> 'v \<Rightarrow> nat" where
  "indexKey kv = (case arrayIndex (fst kv) of Some n \<Rightarrow> n | None \<Rightarrow> 0)"

definition forIn :: "'v obj \<Rightarrow> (string \<times> 'v) list" where
  "forIn ob =
     sort_key indexKey (filter (\<lambda>kv. arrayIndex (fst kv) \<noteq> None) ob)
     @ filter (\<lambda>kv. arrayIndex (fst kv) = None) ob"

subsection \<open>Strings\<close>

text \<open>
  \<^verbatim>\<open>String.prototype.trim\<close> removes white space and line terminators from both ends.
  Below code unit 256 these are tab, line feed, vertical tab, form feed, carriage
  return, space and no-break space.
\<close>

definition isWhiteSpace :: "char \<Rightarrow> bool" where
  "isWhiteSpace c = ((of_char c :: nat) \<in> {9, 10, 11, 12, 13, 32, 160})"

definition trim :: "string \<Rightarrow> string" where
  "trim s = rev (dropWhile isWhiteSpace (rev (dropWhile isWhiteSpace s)))"

subsection \<open>The interfaces of the module\<close>

record FileChunk =
  absolutePath :: string
  offset :: nat
  length' :: nat

datatype DataSource = FromPath string | FromChunk FileChunk | FromBuffer bytes

record 'd FileInPak =
  extension :: string
  relPath :: string
  extlessFileName :: string
  dataSource :: 'd

text \<open>
  A \<open>TreeLeaf\<close> has the file name and three optional fields. \<open>addFile\<close> stores under
  \<open>fileData\<close> whatever data source is neither a string nor an object with a truthy
  \<open>absolutePath\<close>, so the field holds the data source as it was given.
\<close>

record TreeLeaf =
  fileName :: string
  absoluteFilePath :: "string option"
  fileData :: "DataSource option"
  fileChunk :: "FileChunk option"

record FileMetadata =
  crc32' :: nat
  preloadLength :: nat
  archiveIndex :: nat
  archiveOffset :: nat
  fileLength :: nat
  suffix :: nat

record IndexTreeLeaf =
  fileName' :: string
  metadata :: FileMetadata

record IndexEntry =
  relPath' :: string
  metadata' :: FileMetadata

section \<open>The class Vpk\<close>

record Vpk =
  version :: int
  headerLength :: nat
  tree :: "TreeLeaf list obj obj"
  treeLength :: nat
  fileCount :: nat

text \<open>The constructor.\<close>

definition newVpk :: Vpk where
  "newVpk = \<lparr>version = 2, headerLength = 28, tree = [], treeLength = 0, fileCount = 0\<rparr>"


text \<open>
  A method that mutates the object returns \<open>Inr\<close> of the object after the call, or
  \<open>Inl\<close> of the error thrown with the object as the throw left it.
\<close>

definition setVersion :: "Vpk \<Rightarrow> int \<Rightarrow> (error \<times> Vpk) + Vpk" where
  "setVersion v ver =
     (if ver < 1 \<or> ver > 2 then Inl (VersionError, v)
      else Inr (v\<lparr>version := ver, headerLength := (if ver = 1 then 12 else 28)\<rparr>))"

definition fixRelPath :: "string \<Rightarrow> string" where
  "fixRelPath p = (let fixedRelPath = trim p in if fixedRelPath = [] then '' '' else fixedRelPath)"

text \<open>\<open>tree[ext]\<close> and \<open>tree[ext][relPath]\<close>, read where the key is known to exist.\<close>

definition paths :: "'v list obj obj \<Rightarrow> string \<Rightarrow> 'v list obj" where
  "paths t ext = (case map_of t ext of Some b \<Rightarrow> b | None \<Rightarrow> [])"

definition leaves :: "'v list obj obj \<Rightarrow> string \<Rightarrow> string \<Rightarrow> 'v list" where
  "leaves t ext p = (case map_of (paths t ext) p of Some ls \<Rightarrow> ls | None \<Rightarrow> [])"

definition mkLeaf :: "string \<Rightarrow> DataSource \<Rightarrow> TreeLeaf" where
  "mkLeaf name src =
     (case src of
        FromPath p \<Rightarrow>
          \<lparr>fileName = name, absoluteFilePath = Some p, fileData = None, fileChunk = None\<rparr>
      | FromChunk c \<Rightarrow>
          if absolutePath c \<noteq> []
          then \<lparr>fileName = name, absoluteFilePath = None, fileData = None, fileChunk = Some c\<rparr>
          else \<lparr>fileName = name, absoluteFilePath = None, fileData = Some src, fileChunk = None\<rparr>
      | FromBuffer b \<Rightarrow>
          \<lparr>fileName = name, absoluteFilePath = None, fileData = Some src, fileChunk = None\<rparr>)"

definition addFile :: "Vpk \<Rightarrow> DataSource FileInPak \<Rightarrow> (error \<times> Vpk) + Vpk" where
  "addFile v file =
     (let fixedRelPath = fixRelPath (relPath file);
          ext = extension file;
          v1 = (if treeLength v = 0 then v\<lparr>treeLength := 1\<rparr> else v);
          v2 = (if \<not> has ext (tree v1)
                then v1\<lparr>tree := put (tree v1) ext [],
                        treeLength := treeLength v1 + length ext + 2\<rparr>
                else v1);
          v3 = (if \<not> has fixedRelPath (paths (tree v2) ext)
                then v2\<lparr>tree := put (tree v2) ext (put (paths (tree v2) ext) fixedRelPath []),
                        treeLength := treeLength v2 + length fixedRelPath + 2\<rparr>
                else v2);
          leafArr = leaves (tree v3) ext fixedRelPath
      in if extlessFileName file \<in> set (map fileName leafArr) then Inl (DuplicateEntry, v3)
         else Inr (v3\<lparr>tree := put (tree v3) ext
                               (put (paths (tree v3) ext) fixedRelPath
                                  (leafArr @ [mkLeaf (extlessFileName file) (dataSource file)])),
                       treeLength := treeLength v3 + length (extlessFileName file) + 1 + 18,
                       fileCount := fileCount v3 + 1\<rparr>))"

text \<open>
  \<open>leaf.absoluteFilePath ? leaf.absoluteFilePath : (leaf.fileChunk ? leaf.fileChunk :
  leaf.fileData)\<close>: an empty string is falsy, an object is truthy, and \<open>None\<close> is
  \<open>undefined\<close>.
\<close>

definition leafDataSource :: "TreeLeaf \<Rightarrow> DataSource option" where
  "leafDataSource leaf =
     (let other = (case fileChunk leaf of Some c \<Rightarrow> Some (FromChunk c) | None \<Rightarrow> fileData leaf)
      in case absoluteFilePath leaf of
           Some p \<Rightarrow> if p \<noteq> [] then Some (FromPath p) else other
         | None \<Rightarrow> other)"

definition getFiles :: "Vpk \<Rightarrow> DataSource option FileInPak list" where
  "getFiles v =
     concat (map (\<lambda>(ext, b).
       concat (map (\<lambda>(p, leafArr).
         map (\<lambda>leaf. \<lparr>extension = ext, relPath = trim p, extlessFileName = fileName leaf,
                      dataSource = leafDataSource leaf\<rparr>) leafArr)
         (forIn b)))
       (forIn (tree v)))"

definition getFile :: "Vpk \<Rightarrow> string \<Rightarrow> string \<Rightarrow> string \<Rightarrow> DataSource option FileInPak option" where
  "getFile v ext p name =
     (let fixedRelPath = fixRelPath p
      in case map_of (tree v) ext of
           None \<Rightarrow> None
         | Some b \<Rightarrow>
             (case map_of b fixedRelPath of
                None \<Rightarrow> None
              | Some leafArr \<Rightarrow>
                  (case find (\<lambda>leaf. fileName leaf = name) leafArr of
                     None \<Rightarrow> None
                   | Some leaf \<Rightarrow>
                       Some \<lparr>extension = ext, relPath = trim fixedRelPath,
                             extlessFileName = fileName leaf,
                             dataSource = leafDataSource leaf\<rparr>)))"

text \<open>The search for \<open>targetIndex\<close> followed by \<open>splice(targetIndex, 1)\<close>.\<close>

fun spliceFirst :: "('a \<Rightarrow> bool) \<Rightarrow> 'a list \<Rightarrow> 'a list" where
  "spliceFirst P [] = []"
| "spliceFirst P (x # xs) = (if P x then xs else x # spliceFirst P xs)"

definition removeFile :: "Vpk \<Rightarrow> string \<Rightarrow> string \<Rightarrow> string \<Rightarrow> Vpk" where
  "removeFile v ext p name =
     (let fixedRelPath = fixRelPath p
      in case map_of (tree v) ext of
           None \<Rightarrow> v
         | Some b \<Rightarrow>
             (case map_of b fixedRelPath of
                None \<Rightarrow> v
              | Some leafArr \<Rightarrow>
                  v\<lparr>tree := put (tree v) ext
                              (put b fixedRelPath
                                 (spliceFirst (\<lambda>leaf. fileName leaf = name) leafArr))\<rparr>))"


text \<open>
  The spec's formula for the byte length of the tree: 1 for the terminator of the tree,
  the length plus 2 for every extension and for every relative path, and the length of
  the name plus 1 plus 18 for every entry.
\<close>

definition leafBytes :: "TreeLeaf \<Rightarrow> nat" where
  "leafBytes leaf = length (fileName leaf) + 1 + 18"

definition pathBytes :: "string \<times> TreeLeaf list \<Rightarrow> nat" where
  "pathBytes pl = length (fst pl) + 2 + sum_list (map leafBytes (snd pl))"

definition extBytes :: "string \<times> TreeLeaf list obj \<Rightarrow> nat" where
  "extBytes eb = length (fst eb) + 2 + sum_list (map pathBytes (snd eb))"

definition specTreeLength :: "TreeLeaf list obj obj \<Rightarrow> nat" where
  "specTreeLength t = 1 + sum_list (map extBytes t)"

section \<open>Reading a VPK file\<close>

text \<open>
  An open file is the list of its bytes. \<open>fs.readSync(fd, buf, 0, n, pos)\<close> reads the
  bytes from \<open>pos\<close> on, at most \<open>n\<close> and as many as the file has; it returns how many
  it read (the length of \<open>readSync fd n pos\<close>) and overwrites the start of \<open>buf\<close> with
  them (\<open>fill\<close>). \<open>Buffer.alloc n\<close> is \<open>n\<close> zero bytes. The integer readers are used
  on buffers allocated with the length the offsets need.
\<close>

definition readSync :: "bytes \<Rightarrow> nat \<Rightarrow> nat \<Rightarrow> bytes" where
  "readSync fd n pos = take n (drop pos fd)"

definition alloc :: "nat \<Rightarrow> bytes" where
  "alloc n = replicate n 0"

definition fill :: "bytes \<Rightarrow> bytes \<Rightarrow> bytes" where
  "fill buf bs = bs @ drop (length bs) buf"

definition readUInt16LE :: "bytes \<Rightarrow> nat \<Rightarrow> nat" where
  "readUInt16LE buf i = unat (buf ! i) + 256 * unat (buf ! (i + 1))"

definition readUInt32LE :: "bytes \<Rightarrow> nat \<Rightarrow> nat" where
  "readUInt32LE buf i =
     unat (buf ! i) + 256 * unat (buf ! (i + 1)) + 65536 * unat (buf ! (i + 2))
       + 16777216 * unat (buf ! (i + 3))"

text \<open>
  \<open>readNextStringFromFile\<close> reads one byte at a time up to and including the next zero
  byte, or to the end of the file, and joins what each byte decodes to. The string
  encoding is given by what \<open>sourceBuf.toString(stringEncoding)\<close> makes of a buffer of
  one byte. The result is the string and the number of bytes read.
\<close>

type_synonym encoding = "byte \<Rightarrow> string"

fun readString :: "encoding \<Rightarrow> bytes \<Rightarrow> string \<times> nat" where
  "readString enc [] = ([], 0)"
| "readString enc (b # bs) =
     (if b = 0 then ([], 1)
      else (enc b @ fst (readString enc bs), snd (readString enc bs) + 1))"

definition readNextStringFromFile :: "bytes \<Rightarrow> nat \<Rightarrow> encoding \<Rightarrow> string \<times> nat" where
  "readNextStringFromFile fd position stringEncoding =
     readString stringEncoding (drop position fd)"

lemma readString_le: "snd (readString enc bs) \<le> length bs"
  by (induction bs) auto

lemma readString_progress: "fst (readString enc bs) \<noteq> [] \<Longrightarrow> 0 < snd (readString enc bs)"
  by (cases bs) (auto split: if_splits)

lemma readNextString_progress:
  assumes "fst (readNextStringFromFile fd pos enc) \<noteq> []"
  shows "0 < snd (readNextStringFromFile fd pos enc)
         \<and> pos + snd (readNextStringFromFile fd pos enc) \<le> length fd"
proof -
  have "snd (readNextStringFromFile fd pos enc) \<le> length fd - pos"
    using readString_le [of enc "drop pos fd"] by (simp add: readNextStringFromFile_def)
  moreover have "0 < snd (readNextStringFromFile fd pos enc)"
    using assms readString_progress by (simp add: readNextStringFromFile_def)
  ultimately show ?thesis by linarith
qed

text \<open>
  The record that \<open>getFileIndexTree\<close> builds from the 18 bytes after a file name. The
  exposed archive index is overwritten with the absolute offset when the field is
  \<open>0x7fff\<close>.
\<close>

definition leafMetadata :: "bytes \<Rightarrow> nat \<Rightarrow> nat \<Rightarrow> FileMetadata" where
  "leafMetadata sourceBuf headerLen treeLen =
     (let archiveIndex0 = readUInt16LE sourceBuf 6;
          archiveOffset0 = readUInt32LE sourceBuf 8
      in \<lparr>crc32' = readUInt32LE sourceBuf 0,
          preloadLength = readUInt16LE sourceBuf 4,
          archiveIndex = (if archiveIndex0 = 0x7fff then headerLen + treeLen + archiveOffset0
                          else archiveIndex0),
          archiveOffset = archiveOffset0 + treeLen + headerLen,
          fileLength = readUInt32LE sourceBuf 12,
          suffix = readUInt16LE sourceBuf 16\<rparr>)"

text \<open>
  The three nested \<open>while (true)\<close> loops of \<open>getFileIndexTree\<close>, innermost first. Each
  returns what it built and the position \<open>pakPos\<close> it stopped at, or the error thrown.
\<close>

function nameLoop ::
  "bytes \<Rightarrow> nat \<Rightarrow> nat \<Rightarrow> encoding \<Rightarrow> nat \<Rightarrow> IndexTreeLeaf list
    \<Rightarrow> error + (IndexTreeLeaf list \<times> nat)" where
  "nameLoop fd headerLen treeLen enc pakPos leafArr =
     (let nameReadResult = readNextStringFromFile fd pakPos enc;
          name = fst nameReadResult;
          pakPos1 = pakPos + snd nameReadResult
      in if name = [] then Inr (leafArr, pakPos1)
         else
           let bs = readSync fd 18 pakPos1;
               sourceBuf = fill (alloc 18) bs;
               pakPos2 = pakPos1 + length bs
           in if readUInt16LE sourceBuf 16 \<noteq> 0xffff then Inl CorruptEntry
              else nameLoop fd headerLen treeLen enc pakPos2
                     (leafArr @ [\<lparr>fileName' = name,
                                  metadata = leafMetadata sourceBuf headerLen treeLen\<rparr>]))"
  by pat_completeness auto
termination
proof (relation "measure (\<lambda>(fd, headerLen, treeLen, enc, pakPos, leafArr). length fd - pakPos)")
  show "wf (measure (\<lambda>(fd, headerLen, treeLen, enc, pakPos, leafArr). length fd - pakPos))"
    by simp
next
  fix fd :: bytes and headerLen treeLen :: nat and enc :: encoding and pakPos :: nat
    and leafArr :: "IndexTreeLeaf list" and nameReadResult name pakPos1 bs sourceBuf pakPos2
  assume "nameReadResult = readNextStringFromFile fd pakPos enc"
    and "name = fst nameReadResult" and "pakPos1 = pakPos + snd nameReadResult"
    and "name \<noteq> []" and "bs = readSync fd 18 pakPos1"
    and "pakPos2 = pakPos1 + length bs"
  then have "0 < snd (readNextStringFromFile fd pakPos enc)"
    and "pakPos + snd (readNextStringFromFile fd pakPos enc) \<le> length fd"
    using readNextString_progress by blast+
  then show "((fd, headerLen, treeLen, enc, pakPos2,
               leafArr @ [\<lparr>fileName' = name, metadata = leafMetadata sourceBuf headerLen treeLen\<rparr>]),
              fd, headerLen, treeLen, enc, pakPos, leafArr)
             \<in> measure (\<lambda>(fd, headerLen, treeLen, enc, pakPos, leafArr). length fd - pakPos)"
    using \<open>nameReadResult = readNextStringFromFile fd pakPos enc\<close>
      \<open>pakPos1 = pakPos + snd nameReadResult\<close> \<open>pakPos2 = pakPos1 + length bs\<close>
    by simp
qed

declare nameLoop.simps [simp del]

lemma nameLoop_pos:
  "nameLoop fd headerLen treeLen enc pakPos leafArr = Inr (ls, pakPos') \<Longrightarrow> pakPos \<le> pakPos'"
proof (induction fd headerLen treeLen enc pakPos leafArr rule: nameLoop.induct)
  case (1 fd headerLen treeLen enc pakPos leafArr)
  let ?r = "readNextStringFromFile fd pakPos enc"
  let ?p1 = "pakPos + snd ?r"
  let ?bs = "readSync fd 18 ?p1"
  let ?buf = "fill (alloc 18) ?bs"
  show ?case
  proof (cases "fst ?r = []")
    case True
    with "1.prems" show ?thesis
      by (simp add: nameLoop.simps [of fd headerLen treeLen enc pakPos] Let_def)
  next
    case False
    with "1.prems" have ok: "readUInt16LE ?buf 16 = 0xffff"
      and rec: "nameLoop fd headerLen treeLen enc (?p1 + length ?bs)
                  (leafArr @ [\<lparr>fileName' = fst ?r, metadata = leafMetadata ?buf headerLen treeLen\<rparr>])
                = Inr (ls, pakPos')"
      by (auto simp: nameLoop.simps [of fd headerLen treeLen enc pakPos] Let_def split: if_splits)
    have "?p1 + length ?bs \<le> pakPos'"
      using "1.IH" [OF refl refl refl False refl refl refl _ rec] ok by simp
    then show ?thesis by simp
  qed
qed

function pathLoop ::
  "bytes \<Rightarrow> nat \<Rightarrow> nat \<Rightarrow> encoding \<Rightarrow> nat \<Rightarrow> IndexTreeLeaf list obj
    \<Rightarrow> error + (IndexTreeLeaf list obj \<times> nat)" where
  "pathLoop fd headerLen treeLen enc pakPos bucket =
     (let pathReadResult = readNextStringFromFile fd pakPos enc;
          relPath0 = fst pathReadResult;
          pakPos1 = pakPos + snd pathReadResult
      in if relPath0 = [] then Inr (bucket, pakPos1)
         else
           case nameLoop fd headerLen treeLen enc pakPos1 [] of
             Inl e \<Rightarrow> Inl e
           | Inr (leafArr, pakPos2) \<Rightarrow>
               pathLoop fd headerLen treeLen enc pakPos2 (put bucket relPath0 leafArr))"
  by pat_completeness auto
termination
proof (relation "measure (\<lambda>(fd, headerLen, treeLen, enc, pakPos, bucket). length fd - pakPos)")
  show "wf (measure (\<lambda>(fd, headerLen, treeLen, enc, pakPos, bucket). length fd - pakPos))"
    by simp
next
  fix fd :: bytes and headerLen treeLen :: nat and enc :: encoding and pakPos :: nat
    and bucket :: "IndexTreeLeaf list obj" and pathReadResult relPath0 pakPos1 x2 leafArr pakPos2
  assume r: "pathReadResult = readNextStringFromFile fd pakPos enc"
    and "relPath0 = fst pathReadResult" and p1: "pakPos1 = pakPos + snd pathReadResult"
    and "relPath0 \<noteq> []"
    and n: "nameLoop fd headerLen treeLen enc pakPos1 [] = Inr x2"
    and x: "(leafArr, pakPos2) = x2"
  then have "0 < snd (readNextStringFromFile fd pakPos enc)"
    and "pakPos + snd (readNextStringFromFile fd pakPos enc) \<le> length fd"
    using readNextString_progress by blast+
  moreover have "pakPos1 \<le> pakPos2"
    using n x nameLoop_pos [of fd headerLen treeLen enc pakPos1 "[]" leafArr pakPos2] by simp
  ultimately show "((fd, headerLen, treeLen, enc, pakPos2, put bucket relPath0 leafArr),
              fd, headerLen, treeLen, enc, pakPos, bucket)
             \<in> measure (\<lambda>(fd, headerLen, treeLen, enc, pakPos, bucket). length fd - pakPos)"
    using r p1 by simp
qed

declare pathLoop.simps [simp del]

lemma pathLoop_pos:
  "pathLoop fd headerLen treeLen enc pakPos bucket = Inr (b, pakPos') \<Longrightarrow> pakPos \<le> pakPos'"
proof (induction fd headerLen treeLen enc pakPos bucket rule: pathLoop.induct)
  case (1 fd headerLen treeLen enc pakPos bucket)
  let ?r = "readNextStringFromFile fd pakPos enc"
  let ?p1 = "pakPos + snd ?r"
  show ?case
  proof (cases "fst ?r = []")
    case True
    with "1.prems" show ?thesis
      by (simp add: pathLoop.simps [of fd headerLen treeLen enc pakPos] Let_def)
  next
    case False
    with "1.prems" obtain leafArr pakPos2
      where n: "nameLoop fd headerLen treeLen enc ?p1 [] = Inr (leafArr, pakPos2)"
        and rec: "pathLoop fd headerLen treeLen enc pakPos2 (put bucket (fst ?r) leafArr)
                    = Inr (b, pakPos')"
      by (auto simp: pathLoop.simps [of fd headerLen treeLen enc pakPos] Let_def
               split: sum.splits)
    have "pakPos2 \<le> pakPos'"
      using "1.IH" [OF refl refl refl False n refl rec] .
    moreover have "?p1 \<le> pakPos2" using n by (rule nameLoop_pos)
    ultimately show ?thesis by simp
  qed
qed

function extLoop ::
  "bytes \<Rightarrow> nat \<Rightarrow> nat \<Rightarrow> nat \<Rightarrow> encoding \<Rightarrow> nat \<Rightarrow> IndexTreeLeaf list obj obj
    \<Rightarrow> error + (IndexTreeLeaf list obj obj \<times> nat)" where
  "extLoop fd headerLen treeLen maxIndex enc pakPos tree0 =
     (if pakPos > maxIndex then Inl IndexOutOfBounds
      else
        let extReadResult = readNextStringFromFile fd pakPos enc;
            ext = fst extReadResult;
            pakPos1 = pakPos + snd extReadResult
        in if ext = [] then Inr (tree0, pakPos1)
           else
             case pathLoop fd headerLen treeLen enc pakPos1 [] of
               Inl e \<Rightarrow> Inl e
             | Inr (bucket, pakPos2) \<Rightarrow>
                 extLoop fd headerLen treeLen maxIndex enc pakPos2 (put tree0 ext bucket))"
  by pat_completeness auto
termination
proof (relation "measure (\<lambda>(fd, headerLen, treeLen, maxIndex, enc, pakPos, tree0). length fd - pakPos)")
  show "wf (measure (\<lambda>(fd, headerLen, treeLen, maxIndex, enc, pakPos, tree0). length fd - pakPos))"
    by simp
next
  fix fd :: bytes and headerLen treeLen maxIndex :: nat and enc :: encoding and pakPos :: nat
    and tree0 :: "IndexTreeLeaf list obj obj" and extReadResult ext pakPos1 x2 bucket pakPos2
  assume r: "extReadResult = readNextStringFromFile fd pakPos enc"
    and "ext = fst extReadResult" and p1: "pakPos1 = pakPos + snd extReadResult"
    and "ext \<noteq> []"
    and n: "pathLoop fd headerLen treeLen enc pakPos1 [] = Inr x2"
    and x: "(bucket, pakPos2) = x2"
  then have "0 < snd (readNextStringFromFile fd pakPos enc)"
    and "pakPos + snd (readNextStringFromFile fd pakPos enc) \<le> length fd"
    using readNextString_progress by blast+
  moreover have "pakPos1 \<le> pakPos2"
    using n x pathLoop_pos [of fd headerLen treeLen enc pakPos1 "[]" bucket pakPos2] by simp
  ultimately show "((fd, headerLen, treeLen, maxIndex, enc, pakPos2, put tree0 ext bucket),
              fd, headerLen, treeLen, maxIndex, enc, pakPos, tree0)
             \<in> measure (\<lambda>(fd, headerLen, treeLen, maxIndex, enc, pakPos, tree0). length fd - pakPos)"
    using r p1 by simp
qed

declare extLoop.simps [simp del]

definition getFileIndexTree ::
  "bytes \<Rightarrow> nat \<Rightarrow> nat \<Rightarrow> nat \<Rightarrow> encoding \<Rightarrow> error + IndexTreeLeaf list obj obj" where
  "getFileIndexTree fd headerLen treeLen maxIndex stringEncoding =
     (case extLoop fd headerLen treeLen maxIndex stringEncoding headerLen [] of
        Inl e \<Rightarrow> Inl e
      | Inr (tree0, pakPos) \<Rightarrow> Inr tree0)"

text \<open>
  The three checksums are kept as the 16 bytes of \<open>sourceBuf\<close> (the source keeps their
  hexadecimal text, which determines the bytes and is determined by them). The one
  buffer is reused for the three reads.
\<close>

record VpkV2Metadata =
  embedChunkLength :: nat
  chunkHashesLength :: nat
  hashesLength :: nat
  signatureLength :: nat
  treeChecksum :: bytes
  chunkHashesChecksum :: bytes
  fileChecksum :: bytes

record IndexFromFileResult =
  fileIndexTree :: "IndexTreeLeaf list obj obj"
  vpkVersion :: nat
  vpkTreeLength :: nat
  vpkV2Metadata :: "VpkV2Metadata option"

definition MAGIC :: nat where
  "MAGIC = 0x55aa1234"

definition readV2Metadata :: "bytes \<Rightarrow> nat \<Rightarrow> nat \<Rightarrow> error + VpkV2Metadata" where
  "readV2Metadata fd pakPos0 treeLen =
     (let bs = readSync fd 16 12;
          sourceBuf = fill (alloc 16) bs;
          pakPos1 = pakPos0 + length bs;
          embedChunkLen = readUInt32LE sourceBuf 0;
          chunkHashesLen = readUInt32LE sourceBuf 4;
          hashesLen = readUInt32LE sourceBuf 8;
          signatureLen = readUInt32LE sourceBuf 12
      in if hashesLen \<noteq> 48 then Inl MalformedHeader
         else
           let pakPos2 = pakPos1 + (treeLen + embedChunkLen + chunkHashesLen);
               bs1 = readSync fd 16 pakPos2;
               buf1 = fill (alloc 16) bs1;
               pakPos3 = pakPos2 + length bs1;
               bs2 = readSync fd 16 pakPos3;
               buf2 = fill buf1 bs2;
               pakPos4 = pakPos3 + length bs2;
               bs3 = readSync fd 16 pakPos4;
               buf3 = fill buf2 bs3
           in Inr \<lparr>embedChunkLength = embedChunkLen, chunkHashesLength = chunkHashesLen,
                    hashesLength = hashesLen, signatureLength = signatureLen,
                    treeChecksum = buf1, chunkHashesChecksum = buf2, fileChecksum = buf3\<rparr>)"

definition indexFromFileInternal :: "bytes \<Rightarrow> encoding \<Rightarrow> error + IndexFromFileResult" where
  "indexFromFileInternal fd pathEncoding =
     (let bs = readSync fd 12 0;
          sourceBuf = fill (alloc 12) bs;
          pakPos = length bs
      in if readUInt32LE sourceBuf 0 \<noteq> MAGIC then Inl BadMagic
         else
           let ver = readUInt32LE sourceBuf 4
           in if ver = 0x00030002 then Inl UnsupportedVariant
              else
                let treeLen = readUInt32LE sourceBuf 8
                in if ver = 2
                   then
                     case readV2Metadata fd pakPos treeLen of
                       Inl e \<Rightarrow> Inl e
                     | Inr v2 \<Rightarrow>
                         (case getFileIndexTree fd 28 treeLen (treeLen + 28) pathEncoding of
                            Inl e \<Rightarrow> Inl e
                          | Inr t \<Rightarrow>
                              Inr \<lparr>fileIndexTree = t, vpkVersion = ver, vpkTreeLength = treeLen,
                                   vpkV2Metadata = Some v2\<rparr>)
                   else
                     case getFileIndexTree fd 12 treeLen (treeLen + 12) pathEncoding of
                       Inl e \<Rightarrow> Inl e
                     | Inr t \<Rightarrow>
                         Inr \<lparr>fileIndexTree = t, vpkVersion = ver, vpkTreeLength = treeLen,
                              vpkV2Metadata = None\<rparr>)"

text \<open>
  The file system is a map from absolute paths to the bytes of the files that can be
  read. \<open>validateReadFileOrDirectoryPath\<close> throws for a path that is not there.
\<close>

type_synonym filesystem = "string \<Rightarrow> bytes option"

text \<open>
  \<open>fromFile\<close>: the three nested loops call \<open>addFile\<close> for the leaves in the order
  \<open>indexedFiles\<close> lists them; a throw of \<open>addFile\<close> ends the call.
\<close>

definition indexedFiles :: "string \<Rightarrow> IndexTreeLeaf list obj obj \<Rightarrow> DataSource FileInPak list" where
  "indexedFiles absFilePath t =
     concat (map (\<lambda>(ext, b).
       concat (map (\<lambda>(p, leafArr).
         map (\<lambda>leaf. \<lparr>extension = ext, relPath = trim p, extlessFileName = fileName' leaf,
                      dataSource = FromChunk \<lparr>absolutePath = absFilePath,
                                              offset = archiveOffset (metadata leaf),
                                              length' = fileLength (metadata leaf)\<rparr>\<rparr>) leafArr)
         (forIn b)))
       (forIn t))"

fun addFiles :: "Vpk \<Rightarrow> DataSource FileInPak list \<Rightarrow> error + Vpk" where
  "addFiles vpk [] = Inr vpk"
| "addFiles vpk (f # fs) =
     (case addFile vpk f of Inl (e, vpk') \<Rightarrow> Inl e | Inr vpk' \<Rightarrow> addFiles vpk' fs)"

definition fromFile :: "filesystem \<Rightarrow> string \<Rightarrow> encoding \<Rightarrow> error + Vpk" where
  "fromFile fs absFilePath pathEncoding =
     (case fs absFilePath of
        None \<Rightarrow> Inl PathUnavailable
      | Some fd \<Rightarrow>
          (case indexFromFileInternal fd pathEncoding of
             Inl e \<Rightarrow> Inl e
           | Inr r \<Rightarrow>
               (case setVersion newVpk (int (vpkVersion r)) of
                  Inl (e, vpk') \<Rightarrow> Inl e
                | Inr vpk \<Rightarrow> addFiles vpk (indexedFiles absFilePath (fileIndexTree r)))))"

definition indexEntries :: "IndexTreeLeaf list obj obj \<Rightarrow> IndexEntry list" where
  "indexEntries t =
     concat (map (\<lambda>(ext, b).
       concat (map (\<lambda>(p, leafArr).
         map (\<lambda>leaf. \<lparr>relPath' = (if trim p \<noteq> [] then p @ ''/'' @ fileName' leaf @ ''.'' @ ext
                                   else fileName' leaf @ ''.'' @ ext),
                      metadata' = metadata leaf\<rparr>) leafArr)
         (forIn b)))
       (forIn t))"

definition indexFromFile :: "filesystem \<Rightarrow> string \<Rightarrow> encoding \<Rightarrow> error + IndexEntry list" where
  "indexFromFile fs absFilePath pathEncoding =
     (case fs absFilePath of
        None \<Rightarrow> Inl PathUnavailable
      | Some fd \<Rightarrow>
          (case indexFromFileInternal fd pathEncoding of
             Inl e \<Rightarrow> Inl e
           | Inr r \<Rightarrow> Inr (indexEntries (fileIndexTree r))))"

text \<open>
  What the walk of \<open>getFileIndexTree\<close> comes to. \<open>recordAfter fd enc q\<close> is the buffer
  \<open>sourceBuf\<close> read after the string at \<open>q\<close>, and \<open>afterRecord fd enc q\<close> the position
  after it. \<open>nameWalk fd enc p q\<close>: the innermost loop, entered at \<open>p\<close>, comes to read a
  file name at \<open>q\<close>. \<open>pathWalk\<close> and \<open>extWalk\<close> say the same of the loop over the
  relative paths and of the loop over the extensions. \<open>walksToName\<close>: the walk of the whole
  tree comes to read a file name at \<open>q\<close>.
\<close>

definition recordAfter :: "bytes \<Rightarrow> encoding \<Rightarrow> nat \<Rightarrow> bytes" where
  "recordAfter fd enc q =
     fill (alloc 18) (readSync fd 18 (q + snd (readNextStringFromFile fd q enc)))"

definition afterRecord :: "bytes \<Rightarrow> encoding \<Rightarrow> nat \<Rightarrow> nat" where
  "afterRecord fd enc q =
     q + snd (readNextStringFromFile fd q enc)
       + length (readSync fd 18 (q + snd (readNextStringFromFile fd q enc)))"

inductive nameWalk :: "bytes \<Rightarrow> encoding \<Rightarrow> nat \<Rightarrow> nat \<Rightarrow> bool" for fd enc where
  nameWalk_start: "nameWalk fd enc p p"
| nameWalk_step:
    "nameWalk fd enc p q \<Longrightarrow> fst (readNextStringFromFile fd q enc) \<noteq> [] \<Longrightarrow>
     readUInt16LE (recordAfter fd enc q) 16 = 0xffff \<Longrightarrow>
     nameWalk fd enc p (afterRecord fd enc q)"

inductive pathWalk :: "bytes \<Rightarrow> nat \<Rightarrow> nat \<Rightarrow> encoding \<Rightarrow> nat \<Rightarrow> nat \<Rightarrow> bool"
  for fd headerLen treeLen enc where
  pathWalk_start: "pathWalk fd headerLen treeLen enc p p"
| pathWalk_step:
    "pathWalk fd headerLen treeLen enc p q \<Longrightarrow> fst (readNextStringFromFile fd q enc) \<noteq> [] \<Longrightarrow>
     nameLoop fd headerLen treeLen enc (q + snd (readNextStringFromFile fd q enc)) []
       = Inr (leafArr, q') \<Longrightarrow>
     pathWalk fd headerLen treeLen enc p q'"

inductive extWalk :: "bytes \<Rightarrow> nat \<Rightarrow> nat \<Rightarrow> nat \<Rightarrow> encoding \<Rightarrow> nat \<Rightarrow> nat \<Rightarrow> bool"
  for fd headerLen treeLen maxIndex enc where
  extWalk_start: "extWalk fd headerLen treeLen maxIndex enc p p"
| extWalk_step:
    "extWalk fd headerLen treeLen maxIndex enc p q \<Longrightarrow> q \<le> maxIndex \<Longrightarrow>
     fst (readNextStringFromFile fd q enc) \<noteq> [] \<Longrightarrow>
     pathLoop fd headerLen treeLen enc (q + snd (readNextStringFromFile fd q enc)) []
       = Inr (bucket, q') \<Longrightarrow>
     extWalk fd headerLen treeLen maxIndex enc p q'"

definition walksToName :: "bytes \<Rightarrow> nat \<Rightarrow> nat \<Rightarrow> nat \<Rightarrow> encoding \<Rightarrow> nat \<Rightarrow> bool" where
  "walksToName fd headerLen treeLen maxIndex enc q =
     (\<exists>e p. extWalk fd headerLen treeLen maxIndex enc headerLen e \<and> e \<le> maxIndex
        \<and> fst (readNextStringFromFile fd e enc) \<noteq> []
        \<and> pathWalk fd headerLen treeLen enc (e + snd (readNextStringFromFile fd e enc)) p
        \<and> fst (readNextStringFromFile fd p enc) \<noteq> []
        \<and> nameWalk fd enc (p + snd (readNextStringFromFile fd p enc)) q)"

text \<open>The fields of the header as \<open>indexFromFileInternal\<close> reads them.\<close>

definition magicField :: "bytes \<Rightarrow> nat" where
  "magicField fd = readUInt32LE (fill (alloc 12) (readSync fd 12 0)) 0"

definition versionField :: "bytes \<Rightarrow> nat" where
  "versionField fd = readUInt32LE (fill (alloc 12) (readSync fd 12 0)) 4"

definition treeLengthField :: "bytes \<Rightarrow> nat" where
  "treeLengthField fd = readUInt32LE (fill (alloc 12) (readSync fd 12 0)) 8"

text \<open>
  \<open>parsedAt fd headerLen treeLen maxIndex enc leaf q\<close>: the leaf is the one that the walk
  builds from the file name it reads at \<open>q\<close> and the record after it. \<open>allLeaves\<close> are the
  leaves of a tree. \<open>decodesAll\<close>: the encoding makes at least one code unit of every byte
  that is not zero (so do utf-8, latin1, ascii, hex and base64). \<open>latin1\<close> is the
  encoding of that name; utf-8 and ascii agree with it on the bytes below 128.
\<close>

definition parsedAt ::
  "bytes \<Rightarrow> nat \<Rightarrow> nat \<Rightarrow> nat \<Rightarrow> encoding \<Rightarrow> IndexTreeLeaf \<Rightarrow> nat \<Rightarrow> bool" where
  "parsedAt fd headerLen treeLen maxIndex enc leaf q =
     (walksToName fd headerLen treeLen maxIndex enc q
      \<and> fst (readNextStringFromFile fd q enc) \<noteq> []
      \<and> readUInt16LE (recordAfter fd enc q) 16 = 0xffff
      \<and> leaf = \<lparr>fileName' = fst (readNextStringFromFile fd q enc),
                 metadata = leafMetadata (recordAfter fd enc q) headerLen treeLen\<rparr>)"

definition allLeaves :: "'v list obj obj \<Rightarrow> 'v list" where
  "allLeaves t = concat (map (\<lambda>eb. concat (map snd (snd eb))) t)"


definition latin1 :: encoding where
  "latin1 b = [char_of (unat b)]"

text \<open>
  \<open>leafAt\<close> is the leaf built from the file name at \<open>q\<close>; \<open>inPath\<close> and \<open>inExt\<close> say that
  a leaf is built inside the relative path read at \<open>pq\<close>, and inside the extension read
  at \<open>e\<close>.
\<close>

definition leafAt :: "bytes \<Rightarrow> nat \<Rightarrow> nat \<Rightarrow> encoding \<Rightarrow> nat \<Rightarrow> IndexTreeLeaf" where
  "leafAt fd headerLen treeLen enc q =
     \<lparr>fileName' = fst (readNextStringFromFile fd q enc),
      metadata = leafMetadata (recordAfter fd enc q) headerLen treeLen\<rparr>"

definition inPath :: "bytes \<Rightarrow> nat \<Rightarrow> nat \<Rightarrow> encoding \<Rightarrow> nat \<Rightarrow> IndexTreeLeaf \<Rightarrow> bool" where
  "inPath fd headerLen treeLen enc pq l =
     (fst (readNextStringFromFile fd pq enc) \<noteq> []
      \<and> (\<exists>q. nameWalk fd enc (pq + snd (readNextStringFromFile fd pq enc)) q
             \<and> fst (readNextStringFromFile fd q enc) \<noteq> []
             \<and> readUInt16LE (recordAfter fd enc q) 16 = 0xffff
             \<and> l = leafAt fd headerLen treeLen enc q))"

definition inExt :: "bytes \<Rightarrow> nat \<Rightarrow> nat \<Rightarrow> encoding \<Rightarrow> nat \<Rightarrow> IndexTreeLeaf \<Rightarrow> bool" where
  "inExt fd headerLen treeLen enc e l =
     (fst (readNextStringFromFile fd e enc) \<noteq> []
      \<and> (\<exists>pq. pathWalk fd headerLen treeLen enc (e + snd (readNextStringFromFile fd e enc)) pq
              \<and> inPath fd headerLen treeLen enc pq l))"

text \<open>
  \<open>headerLengthOf\<close> is the header length that \<open>indexFromFileInternal\<close> takes for the
  file, and \<open>headerAccepted\<close> says that it throws none of its own three errors.
\<close>

definition hashesLengthField :: "bytes \<Rightarrow> nat" where
  "hashesLengthField fd = readUInt32LE (fill (alloc 16) (readSync fd 16 12)) 8"

definition headerLengthOf :: "bytes \<Rightarrow> nat" where
  "headerLengthOf fd = (if versionField fd = 2 then 28 else 12)"

definition headerAccepted :: "bytes \<Rightarrow> bool" where
  "headerAccepted fd =
     (magicField fd = MAGIC \<and> versionField fd \<noteq> 0x00030002
      \<and> (if versionField fd = 2 then hashesLengthField fd = 48 else True))"

section \<open>Checksums\<close>

text \<open>
  \<open>makeCrc32Table\<close> and \<open>crc32\<close>. The source computes with the 32-bit integers of the
  bitwise operators of JavaScript; a value is modelled by its 32 bits, so \<open>c >>> 1\<close> is
  \<open>drop_bit 1 c\<close> and \<open>crc ^ (-1)\<close> is \<open>crc XOR - 1\<close>. Reading a buffer past its end gives
  \<open>undefined\<close>, which the operator \<open>^\<close> takes for 0.
\<close>

definition crcRound :: "32 word \<Rightarrow> 32 word" where
  "crcRound c = (if c AND 1 \<noteq> 0 then 0xEDB88320 XOR drop_bit 1 c else drop_bit 1 c)"

definition makeCrc32Table :: "32 word list" where
  "makeCrc32Table = map (\<lambda>n. fold (\<lambda>k c. crcRound c) [0..<8] (of_nat n)) [0..<256]"

definition crc32Table :: "32 word list" where
  "crc32Table = makeCrc32Table"

definition crc32 :: "32 word \<Rightarrow> bytes \<Rightarrow> nat \<Rightarrow> nat \<Rightarrow> 32 word" where
  "crc32 crc buf len pos =
     fold (\<lambda>i c. drop_bit 8 c
                   XOR crc32Table ! unat ((c XOR (if i < length buf then ucast (buf ! i) else 0))
                                          AND 0xFF))
          [pos ..< pos + len] (crc XOR - 1)
     XOR - 1"

text \<open>
  The MD5 digests come from the library spark-md5, which is not part of the sources: the
  functions that need one take \<open>md5\<close> as a parameter, the digest (16 bytes) of the bytes
  appended so far, in order.
\<close>

type_synonym digest = "bytes \<Rightarrow> bytes"

section \<open>Writing a VPK file\<close>

text \<open>
  \<open>fs.writeSync(fd, buf, 0, null, pos)\<close> writes the buffer at \<open>pos\<close> and returns its
  length; a write after the end of the file fills the gap with zero bytes, and a write
  of no bytes changes nothing. \<open>writeUInt16LE\<close> and \<open>writeUInt32LE\<close> give the bytes of a
  value that fits; \<open>writeUInt32LE\<close> throws a \<open>RangeError\<close> for a value that does not.
\<close>

definition writeAt :: "bytes \<Rightarrow> nat \<Rightarrow> bytes \<Rightarrow> bytes" where
  "writeAt fd pos bs =
     (if bs = [] then fd
      else take pos fd @ replicate (pos - length fd) 0 @ bs @ drop (pos + length bs) fd)"

definition uint16LE :: "nat \<Rightarrow> bytes" where
  "uint16LE n = [of_nat n, of_nat (n div 256)]"

definition uint32LE :: "nat \<Rightarrow> bytes" where
  "uint32LE n = [of_nat n, of_nat (n div 256), of_nat (n div 65536), of_nat (n div 16777216)]"

definition fitsUInt32 :: "nat \<Rightarrow> bool" where
  "fitsUInt32 n = (n < 4294967296)"

text \<open>
  The state of \<open>saveToFile\<close> while it writes the tree: the bytes of the output file, and
  the variables \<open>pakPos\<close>, \<open>dataOffset\<close> and \<open>embedChunkLength\<close>.
\<close>

record SaveState =
  pak :: bytes
  pakPos :: nat
  dataOffset :: nat
  embedLength :: nat

text \<open>
  The two loops that stream a source into the output, 16000 bytes at a time, and compute
  the CRC-32 on the way: the one for a whole file and the one for a chunk of a file. They
  return the checksum, the output file and the position after the data. The sources are
  read as the file system has them when \<open>saveToFile\<close> is called: an archive saved over one
  of its own sources is outside the model.
\<close>

function copyFile :: "bytes \<Rightarrow> nat \<Rightarrow> 32 word \<Rightarrow> bytes \<Rightarrow> nat \<Rightarrow> 32 word \<times> bytes \<times> nat" where
  "copyFile src sourcePos checksum out outPos =
     (let trimmedSourceBuffer = readSync src 16000 sourcePos;
          bytesRead = length trimmedSourceBuffer
      in if bytesRead = 0 then (checksum, out, outPos)
         else copyFile src (sourcePos + bytesRead)
                (crc32 checksum trimmedSourceBuffer bytesRead 0)
                (writeAt out outPos trimmedSourceBuffer) (outPos + bytesRead))"
  by pat_completeness auto
termination
  by (relation "measure (\<lambda>(src, sourcePos, checksum, out, outPos). length src - sourcePos)")
     (auto simp: readSync_def)

declare copyFile.simps [simp del]

function copyChunk ::
  "bytes \<Rightarrow> nat \<Rightarrow> nat \<Rightarrow> nat \<Rightarrow> 32 word \<Rightarrow> bytes \<Rightarrow> nat \<Rightarrow> 32 word \<times> bytes \<times> nat" where
  "copyChunk src chunkLen sourcePos totalBytesRead checksum out outPos =
     (let trimmedSourceBuffer = readSync src (min 16000 (chunkLen - totalBytesRead)) sourcePos;
          bytesRead = length trimmedSourceBuffer
      in if bytesRead = 0 then (checksum, out, outPos)
         else copyChunk src chunkLen (sourcePos + bytesRead) (totalBytesRead + bytesRead)
                (crc32 checksum trimmedSourceBuffer bytesRead 0)
                (writeAt out outPos trimmedSourceBuffer) (outPos + bytesRead))"
  by pat_completeness auto
termination
  by (relation "measure (\<lambda>(src, chunkLen, sourcePos, totalBytesRead, checksum, out, outPos).
                   length src - sourcePos)")
     (auto simp: readSync_def)

declare copyChunk.simps [simp del]

text \<open>
  The data of one leaf, by the three branches of the source: a truthy \<open>fileData\<close> is
  written as it is and no checksum is computed for it (\<open>checksum\<close> stays 0); a non-empty
  \<open>absoluteFilePath\<close> is streamed from the file; otherwise the \<open>fileChunk\<close> is streamed.
  \<open>fs.writeSync\<close> throws for a \<open>fileData\<close> that is no buffer, \<open>fs.openSync\<close> for a file
  that is not there, and reading the fields of a \<open>fileChunk\<close> that is \<open>undefined\<close> is a
  \<open>TypeError\<close> (\<open>InvalidArgument\<close>).
\<close>

definition writeData ::
  "filesystem \<Rightarrow> TreeLeaf \<Rightarrow> bytes \<Rightarrow> nat \<Rightarrow> error + (32 word \<times> bytes \<times> nat)" where
  "writeData fs treeLeaf out outPos =
     (case fileData treeLeaf of
        Some (FromBuffer b) \<Rightarrow> Inr (0, writeAt out outPos b, outPos + length b)
      | Some other \<Rightarrow> Inl InvalidArgument
      | None \<Rightarrow>
          if absoluteFilePath treeLeaf \<noteq> None \<and> absoluteFilePath treeLeaf \<noteq> Some []
          then
            (case fs (case absoluteFilePath treeLeaf of Some p \<Rightarrow> p | None \<Rightarrow> []) of
               None \<Rightarrow> Inl IOError
             | Some src \<Rightarrow> Inr (copyFile src 0 0 out outPos))
          else
            (case fileChunk treeLeaf of
               None \<Rightarrow> Inl InvalidArgument
             | Some c \<Rightarrow>
                 (case fs (absolutePath c) of
                    None \<Rightarrow> Inl IOError
                  | Some src \<Rightarrow> Inr (copyChunk src (length' c) (offset c) 0 0 out outPos))))"

text \<open>
  \<open>Buffer.from(s, pathEncoding)\<close> is the parameter \<open>encode\<close>. \<open>writeString\<close> writes a
  string and the null terminator after it at \<open>pakPos\<close>, \<open>writeNul\<close> a null terminator.
\<close>

type_synonym encoder = "string \<Rightarrow> bytes"

definition writeNul :: "SaveState \<Rightarrow> SaveState" where
  "writeNul s = s\<lparr>pak := writeAt (pak s) (pakPos s) [0], pakPos := pakPos s + 1\<rparr>"

definition writeString :: "encoder \<Rightarrow> SaveState \<Rightarrow> string \<Rightarrow> SaveState" where
  "writeString encode s str =
     writeNul (s\<lparr>pak := writeAt (pak s) (pakPos s) (encode str),
                 pakPos := pakPos s + length (encode str)\<rparr>)"

text \<open>The body of the loop over the leaves of one relative path.\<close>

definition writeLeaf ::
  "filesystem \<Rightarrow> encoder \<Rightarrow> nat \<Rightarrow> nat \<Rightarrow> SaveState \<Rightarrow> TreeLeaf \<Rightarrow> error + SaveState" where
  "writeLeaf fs encode treeLen headerLen s0 treeLeaf =
     (let s = writeString encode s0 (fileName treeLeaf);
          metadataOffset = pakPos s;
          fileOffset = dataOffset s
      in case writeData fs treeLeaf (pak s) fileOffset of
           Inl e \<Rightarrow> Inl e
         | Inr (checksum, out, endPos) \<Rightarrow>
             (let fileLen = endPos - fileOffset
              in if \<not> fitsUInt32 (fileOffset - treeLen - headerLen) \<or> \<not> fitsUInt32 fileLen
                 then Inl RangeError
                 else Inr \<lparr>pak = writeAt out metadataOffset
                                    (uint32LE (unat checksum) @ uint16LE 0 @ uint16LE 0x7fff
                                     @ uint32LE (fileOffset - treeLen - headerLen)
                                     @ uint32LE fileLen @ uint16LE 0xffff),
                          pakPos = metadataOffset + 18,
                          dataOffset = endPos,
                          embedLength = embedLength s + fileLen\<rparr>))"

fun writeLeaves ::
  "filesystem \<Rightarrow> encoder \<Rightarrow> nat \<Rightarrow> nat \<Rightarrow> SaveState \<Rightarrow> TreeLeaf list \<Rightarrow> error + SaveState" where
  "writeLeaves fs encode treeLen headerLen s [] = Inr s"
| "writeLeaves fs encode treeLen headerLen s (treeLeaf # leafList) =
     (case writeLeaf fs encode treeLen headerLen s treeLeaf of
        Inl e \<Rightarrow> Inl e
      | Inr s' \<Rightarrow> writeLeaves fs encode treeLen headerLen s' leafList)"

text \<open>\<open>relPath.split(path.sep).join('/')\<close>, for the separator \<open>sep\<close> of the platform.\<close>

definition normRelPath :: "char \<Rightarrow> string \<Rightarrow> string" where
  "normRelPath sep p = map (\<lambda>c. if c = sep then CHR ''/'' else c) p"

fun writePaths ::
  "filesystem \<Rightarrow> encoder \<Rightarrow> char \<Rightarrow> nat \<Rightarrow> nat \<Rightarrow> SaveState \<Rightarrow> (string \<times> TreeLeaf list) list
    \<Rightarrow> error + SaveState" where
  "writePaths fs encode sep treeLen headerLen s [] = Inr s"
| "writePaths fs encode sep treeLen headerLen s (pl # rest) =
     (case writeLeaves fs encode treeLen headerLen
             (writeString encode s (normRelPath sep (fst pl))) (snd pl) of
        Inl e \<Rightarrow> Inl e
      | Inr s' \<Rightarrow> writePaths fs encode sep treeLen headerLen (writeNul s') rest)"

fun writeExts ::
  "filesystem \<Rightarrow> encoder \<Rightarrow> char \<Rightarrow> nat \<Rightarrow> nat \<Rightarrow> SaveState
    \<Rightarrow> (string \<times> TreeLeaf list obj) list \<Rightarrow> error + SaveState" where
  "writeExts fs encode sep treeLen headerLen s [] = Inr s"
| "writeExts fs encode sep treeLen headerLen s (eb # rest) =
     (case writePaths fs encode sep treeLen headerLen
             (writeString encode s (fst eb)) (forIn (snd eb)) of
        Inl e \<Rightarrow> Inl e
      | Inr s' \<Rightarrow> writeExts fs encode sep treeLen headerLen (writeNul s') rest)"

text \<open>
  The loop \<open>while (pakPos < limit)\<close> that reads the output file back for the digests,
  \<open>2 ** 14\<close> bytes at a time. It returns the bytes it read and the position it stopped at.
  On a file that ends before \<open>limit\<close> a read returns no byte and the position stays: the
  loop does not end, which is the value \<open>None\<close>.
\<close>

partial_function (option) readBack :: "bytes \<Rightarrow> nat \<Rightarrow> nat \<Rightarrow> bytes \<Rightarrow> (bytes \<times> nat) option" where
  "readBack fd limit pos acc =
     (if pos < limit
      then readBack fd limit (pos + length (readSync fd (min 16384 (limit - pos)) pos))
             (acc @ readSync fd (min 16384 (limit - pos)) pos)
      else Some (acc, pos))"

text \<open>
  What \<open>saveToFile\<close> does for version 2 after the tree: it writes \<open>embedChunkLength\<close> into
  the header, reads the header, the tree and the data back, and appends the digest of the
  tree, the digest of no bytes (the chunk hashes) and the digest of the file.
\<close>

definition writeV2Trailer :: "digest \<Rightarrow> nat \<Rightarrow> nat \<Rightarrow> SaveState \<Rightarrow> (error + bytes) option" where
  "writeV2Trailer md5 headerLen treeLen s =
     (if \<not> fitsUInt32 (embedLength s) then Some (Inl RangeError)
      else
        let fd = writeAt (pak s) 12 (uint32LE (embedLength s));
            header = fill (alloc headerLen) (readSync fd headerLen 0)
        in case readBack fd (headerLen + treeLen) headerLen [] of
             None \<Rightarrow> None
           | Some (treeBytes, pos1) \<Rightarrow>
               (case readBack fd (pos1 + embedLength s) pos1 [] of
                  None \<Rightarrow> None
                | Some (dataBytes, pos2) \<Rightarrow>
                    (let treeChecksumBuf = md5 treeBytes;
                         chunkHashesChecksumBuf = md5 [];
                         fileChecksumBuf = md5 (header @ treeBytes @ dataBytes @ treeChecksumBuf
                                                 @ chunkHashesChecksumBuf);
                         fd1 = writeAt fd pos2 treeChecksumBuf;
                         fd2 = writeAt fd1 (pos2 + length treeChecksumBuf) chunkHashesChecksumBuf;
                         fd3 = writeAt fd2 (pos2 + length treeChecksumBuf
                                              + length chunkHashesChecksumBuf) fileChecksumBuf
                     in Some (Inr fd3))))"

text \<open>
  \<open>saveToFile\<close>, for a directory that can be written (\<open>writable\<close>; the source throws for
  one that cannot). The result is the content of the file written, the error thrown, or
  \<open>None\<close> when the call does not return.
\<close>

definition saveToFile ::
  "filesystem \<Rightarrow> encoder \<Rightarrow> char \<Rightarrow> digest \<Rightarrow> bool \<Rightarrow> Vpk \<Rightarrow> (error + bytes) option" where
  "saveToFile fs encode sep md5 writable v =
     (if \<not> writable then Some (Inl PathUnavailable)
      else if version v < 0 \<or> \<not> fitsUInt32 (nat (version v)) \<or> \<not> fitsUInt32 (treeLength v)
      then Some (Inl RangeError)
      else
        let fd0 = writeAt [] 0 (uint32LE MAGIC @ uint32LE (nat (version v))
                                @ uint32LE (treeLength v));
            fd1 = (if version v = 2
                   then writeAt fd0 12 (uint32LE 0 @ uint32LE 0 @ uint32LE 48 @ uint32LE 0)
                   else fd0);
            s0 = \<lparr>pak = fd1, pakPos = (if version v = 2 then 28 else 12),
                  dataOffset = headerLength v + treeLength v, embedLength = 0\<rparr>
        in case writeExts fs encode sep (treeLength v) (headerLength v) s0 (forIn (tree v)) of
             Inl e \<Rightarrow> Some (Inl e)
           | Inr s1 \<Rightarrow>
               (let s2 = writeNul s1
                in if version v = 2 then writeV2Trailer md5 (headerLength v) (treeLength v) s2
                   else Some (Inr (pak s2))))"

section \<open>Verifying a VPK file\<close>

text \<open>
  The strings that \<open>verifyFile\<close> returns, by their kind and the values they print. The
  CRC-32 values are compared by their hexadecimal text, that is, as unsigned numbers;
  the digests by their hexadecimal text, that is, as bytes.
\<close>

datatype mismatch =
    CrcMismatch string nat nat
  | FileChecksumMismatch bytes bytes
  | TreeChecksumMismatch bytes bytes
  | ChunkHashesMismatch bytes bytes

text \<open>The loop that reads the data of an entry back and computes its CRC-32.\<close>

function crcOfRegion :: "bytes \<Rightarrow> nat \<Rightarrow> nat \<Rightarrow> nat \<Rightarrow> 32 word \<Rightarrow> 32 word" where
  "crcOfRegion fd fileLen pos totalBytesRead newCrc =
     (let trimmedSourceBuf = readSync fd (min 16000 (fileLen - totalBytesRead)) pos;
          bytesRead = length trimmedSourceBuf
      in if bytesRead = 0 then newCrc
         else crcOfRegion fd fileLen (pos + bytesRead) (totalBytesRead + bytesRead)
                (crc32 newCrc trimmedSourceBuf bytesRead 0))"
  by pat_completeness auto
termination
  by (relation "measure (\<lambda>(fd, fileLen, pos, totalBytesRead, newCrc). length fd - pos)")
     (auto simp: readSync_def)

declare crcOfRegion.simps [simp del]

definition crcMismatches :: "bytes \<Rightarrow> IndexTreeLeaf list obj obj \<Rightarrow> mismatch list" where
  "crcMismatches fd t =
     concat (map (\<lambda>(ext, b).
       concat (map (\<lambda>(p, leafArr).
         concat (map (\<lambda>leaf.
           (let givenCrc = crc32' (metadata leaf);
                newCrc = unat (crcOfRegion fd (fileLength (metadata leaf))
                                 (archiveOffset (metadata leaf)) 0 0)
            in if givenCrc \<noteq> newCrc
               then [CrcMismatch ((if trim p \<noteq> [] then p @ ''/'' else []) @ fileName' leaf
                                   @ ''.'' @ ext) givenCrc newCrc]
               else [])) leafArr))
         (forIn b)))
       (forIn t))"

definition checksumMismatches ::
  "digest \<Rightarrow> bytes \<Rightarrow> nat \<Rightarrow> VpkV2Metadata \<Rightarrow> mismatch list option" where
  "checksumMismatches md5 fd treeLen v2 =
     (let header = fill (alloc 28) (readSync fd 28 0)
      in case readBack fd (28 + treeLen) 28 [] of
           None \<Rightarrow> None
         | Some (treeBytes, pos1) \<Rightarrow>
             (case readBack fd (pos1 + embedChunkLength v2) pos1 [] of
                None \<Rightarrow> None
              | Some (dataBytes, pos2) \<Rightarrow>
                  (let newTreeChecksum = md5 treeBytes;
                       newChunkHashesChecksum = md5 [];
                       newFileChecksum = md5 (header @ treeBytes @ dataBytes @ newTreeChecksum
                                               @ newChunkHashesChecksum)
                   in Some
                        ((if newFileChecksum \<noteq> fileChecksum v2
                          then [FileChecksumMismatch (fileChecksum v2) newFileChecksum] else [])
                         @ (if newTreeChecksum \<noteq> treeChecksum v2
                            then [TreeChecksumMismatch (treeChecksum v2) newTreeChecksum] else [])
                         @ (if newChunkHashesChecksum \<noteq> chunkHashesChecksum v2
                            then [ChunkHashesMismatch (chunkHashesChecksum v2)
                                    newChunkHashesChecksum]
                            else [])))))"

definition verifyFile ::
  "filesystem \<Rightarrow> string \<Rightarrow> encoding \<Rightarrow> digest \<Rightarrow> (error + mismatch list) option" where
  "verifyFile fs absFilePath pathEncoding md5 =
     (case fs absFilePath of
        None \<Rightarrow> Some (Inl PathUnavailable)
      | Some fd \<Rightarrow>
          (case indexFromFileInternal fd pathEncoding of
             Inl e \<Rightarrow> Some (Inl e)
           | Inr r \<Rightarrow>
               (case vpkV2Metadata r of
                  None \<Rightarrow> Some (Inr (crcMismatches fd (fileIndexTree r)))
                | Some v2 \<Rightarrow>
                    (case checksumMismatches md5 fd (vpkTreeLength r) v2 of
                       None \<Rightarrow> None
                     | Some ms \<Rightarrow> Some (Inr (crcMismatches fd (fileIndexTree r) @ ms))))))"

section \<open>Concrete instances\<close>

text \<open>
  A file \<open>a.txt\<close> at the root of the archive with the one byte \<open>a\<close> as its data, and the
  archive that \<open>addFile\<close> makes of the empty one with it.
\<close>

definition textfile :: "DataSource FileInPak" where
  "textfile = \<lparr>extension = ''txt'', relPath = '''', extlessFileName = ''a'',
               dataSource = FromBuffer [97]\<rparr>"

definition oneFile :: Vpk where
  "oneFile = \<lparr>version = 2, headerLength = 28,
      tree = [(''txt'', [('' '', [\<lparr>fileName = ''a'', absoluteFilePath = None,
                  fileData = Some (FromBuffer [97]), fileChunk = None\<rparr>])])],
      treeLength = 29, fileCount = 1\<rparr>"

text \<open>
  A version 1 archive with that one file: the header (magic, version 1, tree length 29),
  the tree \<open>txt\<close>, single space, \<open>a\<close> with its record (CRC-32 \<open>e8b7be43\<close>, archive index
  \<open>0x7fff\<close>, offset 0, length 1, suffix \<open>0xffff\<close>) and the three terminators, then the
  data byte at position 41.
\<close>

definition goodV1 :: bytes where
  "goodV1 = [0x34, 0x12, 0xaa, 0x55,  1, 0, 0, 0,  29, 0, 0, 0,
             0x74, 0x78, 0x74, 0,  0x20, 0,  0x61, 0,
             0x43, 0xbe, 0xb7, 0xe8,  0, 0,  0xff, 0x7f,  0, 0, 0, 0,  1, 0, 0, 0,  0xff, 0xff,
             0, 0, 0,
             0x61]"

text \<open>
  \<open>twoNames\<close>: a version 1 archive with \<open>a.txt\<close> and \<open>b.txt\<close>, where the record of the
  second has the suffix \<open>0x00ff\<close>. \<open>overrun\<close>: the archive \<open>goodV1\<close> with the tree length 1
  in its header and the suffix 0 in its record. \<open>version3\<close> and \<open>respawn\<close>: an empty
  tree under a header with the version 3 and with the version \<open>0x00030002\<close>. \<open>disk fd\<close>
  is the file system with the one file \<open>/pak.vpk\<close> of content \<open>fd\<close>.
\<close>

definition twoNames :: bytes where
  "twoNames = [0x34, 0x12, 0xaa, 0x55,  1, 0, 0, 0,  49, 0, 0, 0,
               0x74, 0x78, 0x74, 0,  0x20, 0,  0x61, 0,
               0x43, 0xbe, 0xb7, 0xe8,  0, 0,  0xff, 0x7f,  0, 0, 0, 0,  1, 0, 0, 0,  0xff, 0xff,
               0x62, 0,
               0xf9, 0xef, 0xbe, 0x71,  0, 0,  0xff, 0x7f,  1, 0, 0, 0,  1, 0, 0, 0,  0xff, 0,
               0, 0, 0,
               0x61, 0x62]"


definition version3 :: bytes where
  "version3 = [0x34, 0x12, 0xaa, 0x55,  3, 0, 0, 0,  1, 0, 0, 0,  0]"

definition respawn :: bytes where
  "respawn = [0x34, 0x12, 0xaa, 0x55,  2, 0, 3, 0,  1, 0, 0, 0,  0]"

definition disk :: "bytes \<Rightarrow> filesystem" where
  "disk fd = (\<lambda>p. if p = ''/pak.vpk'' then Some fd else None)"

definition leafA :: "nat \<Rightarrow> IndexTreeLeaf" where
  "leafA base = \<lparr>fileName' = ''a'',
                 metadata = \<lparr>crc32' = 0xe8b7be43, preloadLength = 0, archiveIndex = base,
                             archiveOffset = base, fileLength = 1, suffix = 0xffff\<rparr>\<rparr>"

text \<open>
  \<open>oneFileV1\<close> is \<open>oneFile\<close> after \<open>setVersion 1\<close>, and \<open>savedV1\<close> the file that \<open>saveToFile\<close>
  writes for it: \<open>goodV1\<close> with the CRC-32 field 0. \<open>fromDisk\<close> is the archive with the
  same file \<open>a.txt\<close> whose data source is the file \<open>/a.txt\<close> of \<open>sourceDisk\<close>, which holds
  the same byte. \<open>latin1Bytes\<close> is \<open>Buffer.from\<close> for the encoding latin1, which utf-8 and
  ascii agree with on the code units below 128.
\<close>

definition oneFileV1 :: Vpk where
  "oneFileV1 = \<lparr>version = 1, headerLength = 12,
      tree = [(''txt'', [('' '', [\<lparr>fileName = ''a'', absoluteFilePath = None,
                  fileData = Some (FromBuffer [97]), fileChunk = None\<rparr>])])],
      treeLength = 29, fileCount = 1\<rparr>"

definition savedV1 :: bytes where
  "savedV1 = [0x34, 0x12, 0xaa, 0x55,  1, 0, 0, 0,  29, 0, 0, 0,
              0x74, 0x78, 0x74, 0,  0x20, 0,  0x61, 0,
              0, 0, 0, 0,  0, 0,  0xff, 0x7f,  0, 0, 0, 0,  1, 0, 0, 0,  0xff, 0xff,
              0, 0, 0,
              0x61]"

definition fromDisk :: Vpk where
  "fromDisk = \<lparr>version = 1, headerLength = 12,
      tree = [(''txt'', [('' '', [\<lparr>fileName = ''a'', absoluteFilePath = Some ''/a.txt'',
                  fileData = None, fileChunk = None\<rparr>])])],
      treeLength = 29, fileCount = 1\<rparr>"

definition sourceDisk :: filesystem where
  "sourceDisk = (\<lambda>p. if p = ''/a.txt'' then Some [97] else None)"

definition latin1Bytes :: encoder where
  "latin1Bytes s = map (\<lambda>c. of_nat (of_char c)) s"

text \<open>The leaf the parser returns for \<open>savedV1\<close>: the stored checksum is 0.\<close>

definition leafSaved :: IndexTreeLeaf where
  "leafSaved = \<lparr>fileName' = ''a'',
                 metadata = \<lparr>crc32' = 0, preloadLength = 0, archiveIndex = 41,
                             archiveOffset = 41, fileLength = 1, suffix = 0xffff\<rparr>\<rparr>"

section \<open>Dictionaries and strings: basic facts\<close>

lemma map_of_put: "map_of (put ob k v) k' = (if k' = k then Some v else map_of ob k')"
  by (induction ob) auto

lemma has_put: "has k' (put ob k v) = (k' = k \<or> has k' ob)"
  by (simp add: has_def map_of_put)

lemma paths_put: "paths (put t k b) k' = (if k' = k then b else paths t k')"
  by (simp add: paths_def map_of_put)

lemma leaves_put:
  "leaves (put t k (put (paths t k) p ls)) k' p' =
     (if k' = k \<and> p' = p then ls else leaves t k' p')"
  by (simp add: leaves_def paths_put map_of_put)

lemma leaves_absent_ext: "\<not> has ext t \<Longrightarrow> leaves t ext p = []"
  by (simp add: leaves_def paths_def has_def)

lemma leaves_absent_path: "\<not> has p (paths t ext) \<Longrightarrow> leaves t ext p = []"
  by (simp add: leaves_def has_def)










lemma has_Nil: "has k [] = False"
  by (simp add: has_def)

lemma leaves_put_gen:
  "leaves (put t k b) k' p =
     (if k' = k then (case map_of b p of Some ls \<Rightarrow> ls | None \<Rightarrow> []) else leaves t k' p)"
  by (simp add: leaves_def paths_put)

lemma addFile_cases:
  "addFile v file =
     (let fixedRelPath = fixRelPath (relPath file);
          ext = extension file;
          l1 = (if treeLength v = 0 then 1 else treeLength v);
          t2 = (if has ext (tree v) then tree v else put (tree v) ext []);
          l2 = (if has ext (tree v) then l1 else l1 + length ext + 2);
          t3 = (if has fixedRelPath (paths t2 ext) then t2 else put t2 ext (put (paths t2 ext) fixedRelPath []));
          l3 = (if has fixedRelPath (paths t2 ext) then l2 else l2 + length fixedRelPath + 2);
          leafArr = leaves (tree v) ext fixedRelPath
      in if extlessFileName file \<in> set (map fileName leafArr)
         then Inl (DuplicateEntry, v\<lparr>tree := t3, treeLength := l3\<rparr>)
         else Inr (v\<lparr>tree := put t3 ext (put (paths t3 ext) fixedRelPath
                                  (leafArr @ [mkLeaf (extlessFileName file) (dataSource file)])),
                      treeLength := l3 + length (extlessFileName file) + 1 + 18,
                      fileCount := fileCount v + 1\<rparr>))"
proof -
  consider (A) "has (extension file) (tree v)"
               "has (fixRelPath (relPath file)) (paths (tree v) (extension file))"
    | (B) "has (extension file) (tree v)"
          "\<not> has (fixRelPath (relPath file)) (paths (tree v) (extension file))"
    | (C) "\<not> has (extension file) (tree v)"
    by blast
  then show ?thesis
  proof cases
    case A
    then show ?thesis
      by (simp add: addFile_def Let_def)
  next
    case B
    then show ?thesis
      by (simp add: addFile_def Let_def paths_put leaves_put_gen map_of_put leaves_absent_path)
  next
    case C
    then show ?thesis
      by (simp add: addFile_def Let_def paths_put leaves_put_gen map_of_put has_Nil leaves_absent_ext)
  qed
qed



lemma removeFile_fileCount: "fileCount (removeFile v ext p name) = fileCount v"
  by (simp add: removeFile_def Let_def split: option.splits)




lemma sum_put:
  fixes f :: "string \<times> 'v \<Rightarrow> nat"
  shows "sum_list (map f (put ob k x)) + (case map_of ob k of Some old \<Rightarrow> f (k, old) | None \<Rightarrow> 0)
     = sum_list (map f ob) + f (k, x)"
  by (induction ob) (auto split: option.splits)

lemma extBytes_sum_put:
  "sum_list (map extBytes (put t ext b)) + (if has ext t then extBytes (ext, paths t ext) else 0)
    = sum_list (map extBytes t) + extBytes (ext, b)"
  using sum_put [of extBytes t ext b] by (auto simp: has_def paths_def split: option.splits)

lemma pathBytes_sum_put:
  "sum_list (map pathBytes (put b p ls)) + (if has p b then pathBytes (p, case map_of b p of Some l \<Rightarrow> l | None \<Rightarrow> []) else 0)
    = sum_list (map pathBytes b) + pathBytes (p, ls)"
  using sum_put [of pathBytes b p ls] by (auto simp: has_def split: option.splits)


lemma addFile_keeps_exact:
  assumes ok: "addFile v f = Inr v'"
    and inv: "treeLength v = specTreeLength (tree v) \<or> (tree v = [] \<and> treeLength v = 0)"
  shows "treeLength v' = specTreeLength (tree v')"
proof -
  let ?ext = "extension f" and ?p = "fixRelPath (relPath f)"
  let ?t = "tree v"
  let ?l1 = "if treeLength v = 0 then 1 else treeLength v"
  have l1: "?l1 = specTreeLength ?t"
    using inv by (auto simp: specTreeLength_def)
  let ?t2 = "if has ?ext ?t then ?t else put ?t ?ext []"
  let ?l2 = "if has ?ext ?t then ?l1 else ?l1 + length ?ext + 2"
  have l2: "?l2 = specTreeLength ?t2"
    using l1 extBytes_sum_put [of ?t ?ext "[]"]
    by (auto simp: specTreeLength_def extBytes_def)
  have h2: "has ?ext ?t2" by (simp add: has_put)
  let ?t3 = "if has ?p (paths ?t2 ?ext) then ?t2 else put ?t2 ?ext (put (paths ?t2 ?ext) ?p [])"
  let ?l3 = "if has ?p (paths ?t2 ?ext) then ?l2 else ?l2 + length ?p + 2"
  have l3: "?l3 = specTreeLength ?t3"
  proof (cases "has ?p (paths ?t2 ?ext)")
    case True
    then show ?thesis using l2 by simp
  next
    case False
    have "sum_list (map extBytes (put ?t2 ?ext (put (paths ?t2 ?ext) ?p []))) + extBytes (?ext, paths ?t2 ?ext)
          = sum_list (map extBytes ?t2) + extBytes (?ext, put (paths ?t2 ?ext) ?p [])"
      using extBytes_sum_put [of ?t2 ?ext "put (paths ?t2 ?ext) ?p []"] h2 by simp
    moreover have "sum_list (map pathBytes (put (paths ?t2 ?ext) ?p [])) 
          = sum_list (map pathBytes (paths ?t2 ?ext)) + pathBytes (?p, [])"
      using pathBytes_sum_put [of "paths ?t2 ?ext" ?p "[]"] False by simp
    ultimately have "specTreeLength (put ?t2 ?ext (put (paths ?t2 ?ext) ?p [])) = specTreeLength ?t2 + length ?p + 2"
      by (simp add: specTreeLength_def extBytes_def pathBytes_def)
    with False l2 show ?thesis by simp
  qed
  have h3: "has ?ext ?t3" "has ?p (paths ?t3 ?ext)"
    by (auto simp: has_put paths_put)
  let ?ls = "leaves ?t ?ext ?p"
  have ls3: "leaves ?t3 ?ext ?p = ?ls"
    by (auto simp: leaves_put_gen map_of_put leaves_absent_path leaves_absent_ext paths_put has_Nil)
  let ?new = "?ls @ [mkLeaf (extlessFileName f) (dataSource f)]"
  let ?t4 = "put ?t3 ?ext (put (paths ?t3 ?ext) ?p ?new)"
  have "sum_list (map extBytes ?t4) + extBytes (?ext, paths ?t3 ?ext)
          = sum_list (map extBytes ?t3) + extBytes (?ext, put (paths ?t3 ?ext) ?p ?new)"
    using extBytes_sum_put [of ?t3 ?ext "put (paths ?t3 ?ext) ?p ?new"] h3 by simp
  moreover have "sum_list (map pathBytes (put (paths ?t3 ?ext) ?p ?new)) + pathBytes (?p, leaves ?t3 ?ext ?p)
          = sum_list (map pathBytes (paths ?t3 ?ext)) + pathBytes (?p, ?new)"
    using pathBytes_sum_put [of "paths ?t3 ?ext" ?p ?new] h3 by (simp add: leaves_def)
  ultimately have l4: "specTreeLength ?t4 = specTreeLength ?t3 + length (extlessFileName f) + 1 + 18"
    by (simp add: specTreeLength_def extBytes_def pathBytes_def leafBytes_def mkLeaf_def ls3 split: DataSource.splits)
  from ok have "tree v' = ?t4" "treeLength v' = ?l3 + length (extlessFileName f) + 1 + 18"
    by (auto simp: addFile_cases Let_def split: if_splits)
  with l3 l4 show ?thesis by simp
qed

section \<open>The walk of the index: basic facts\<close>

lemma nameLoop_eq:
  "nameLoop fd h t enc q acc =
     (if fst (readNextStringFromFile fd q enc) = []
      then Inr (acc, q + snd (readNextStringFromFile fd q enc))
      else if readUInt16LE (recordAfter fd enc q) 16 \<noteq> 0xffff then Inl CorruptEntry
      else nameLoop fd h t enc (afterRecord fd enc q)
             (acc @ [\<lparr>fileName' = fst (readNextStringFromFile fd q enc),
                       metadata = leafMetadata (recordAfter fd enc q) h t\<rparr>]))"
  by (simp add: nameLoop.simps [of fd h t enc q] Let_def recordAfter_def afterRecord_def)

lemma pathLoop_eq:
  "pathLoop fd h t enc q bucket =
     (if fst (readNextStringFromFile fd q enc) = []
      then Inr (bucket, q + snd (readNextStringFromFile fd q enc))
      else case nameLoop fd h t enc (q + snd (readNextStringFromFile fd q enc)) [] of
             Inl e \<Rightarrow> Inl e
           | Inr (leafArr, q') \<Rightarrow>
               pathLoop fd h t enc q' (put bucket (fst (readNextStringFromFile fd q enc)) leafArr))"
  by (simp add: pathLoop.simps [of fd h t enc q] Let_def)

lemma extLoop_eq:
  "extLoop fd h t m enc q tree0 =
     (if q > m then Inl IndexOutOfBounds
      else if fst (readNextStringFromFile fd q enc) = []
      then Inr (tree0, q + snd (readNextStringFromFile fd q enc))
      else case pathLoop fd h t enc (q + snd (readNextStringFromFile fd q enc)) [] of
             Inl e \<Rightarrow> Inl e
           | Inr (bucket, q') \<Rightarrow>
               extLoop fd h t m enc q' (put tree0 (fst (readNextStringFromFile fd q enc)) bucket))"
  by (simp add: extLoop.simps [of fd h t m enc q] Let_def)

lemma nameWalk_loop:
  "nameWalk fd enc p q \<Longrightarrow> \<exists>acc'. nameLoop fd h t enc p acc = nameLoop fd h t enc q acc'"
proof (induction rule: nameWalk.induct)
  case (nameWalk_start p)
  show ?case by blast
next
  case (nameWalk_step p q)
  then obtain acc' where "nameLoop fd h t enc p acc = nameLoop fd h t enc q acc'" by blast
  also have "\<dots> = nameLoop fd h t enc (afterRecord fd enc q)
             (acc' @ [\<lparr>fileName' = fst (readNextStringFromFile fd q enc),
                       metadata = leafMetadata (recordAfter fd enc q) h t\<rparr>])"
    using nameWalk_step.hyps by (subst nameLoop_eq) simp
  finally show ?case by blast
qed

lemma pathWalk_loop:
  "pathWalk fd h t enc p q \<Longrightarrow> \<exists>b'. pathLoop fd h t enc p b = pathLoop fd h t enc q b'"
proof (induction rule: pathWalk.induct)
  case (pathWalk_start p)
  show ?case by blast
next
  case (pathWalk_step p q leafArr q')
  then obtain b' where "pathLoop fd h t enc p b = pathLoop fd h t enc q b'" by blast
  also have "\<dots> = pathLoop fd h t enc q' (put b' (fst (readNextStringFromFile fd q enc)) leafArr)"
    using pathWalk_step.hyps by (subst pathLoop_eq) simp
  finally show ?case by blast
qed

lemma extWalk_loop:
  "extWalk fd h t m enc p q \<Longrightarrow> \<exists>t'. extLoop fd h t m enc p t0 = extLoop fd h t m enc q t'"
proof (induction rule: extWalk.induct)
  case (extWalk_start p)
  show ?case by blast
next
  case (extWalk_step p q bucket q')
  then obtain t' where "extLoop fd h t m enc p t0 = extLoop fd h t m enc q t'" by blast
  also have "\<dots> = extLoop fd h t m enc q' (put t' (fst (readNextStringFromFile fd q enc)) bucket)"
    using extWalk_step.hyps by (subst extLoop_eq) simp
  finally show ?case by blast
qed

lemma nameLoop_error_acc:
  "nameLoop fd h t enc p acc = Inl e \<Longrightarrow> nameLoop fd h t enc p acc' = Inl e"
proof (induction fd h t enc p acc arbitrary: acc' rule: nameLoop.induct)
  case (1 fd h t enc p acc)
  show ?case
  proof (cases "fst (readNextStringFromFile fd p enc) = []")
    case True
    with "1.prems" show ?thesis by (simp add: nameLoop_eq [of fd h t enc p])
  next
    case False
    note ne = this
    show ?thesis
    proof (cases "readUInt16LE (recordAfter fd enc p) 16 = 0xffff")
      case False
      with ne "1.prems" show ?thesis by (simp add: nameLoop_eq [of fd h t enc p])
    next
      case True
      with ne "1.prems" have rec: "nameLoop fd h t enc (afterRecord fd enc p)
             (acc @ [\<lparr>fileName' = fst (readNextStringFromFile fd p enc),
                       metadata = leafMetadata (recordAfter fd enc p) h t\<rparr>]) = Inl e"
        by (simp add: nameLoop_eq [of fd h t enc p acc])
      have "nameLoop fd h t enc (afterRecord fd enc p)
             (acc' @ [\<lparr>fileName' = fst (readNextStringFromFile fd p enc),
                       metadata = leafMetadata (recordAfter fd enc p) h t\<rparr>]) = Inl e"
        using "1.IH" [OF refl refl refl ne refl refl refl _ ] rec True
        by (simp add: recordAfter_def afterRecord_def)
      with ne True show ?thesis by (simp add: nameLoop_eq [of fd h t enc p acc'])
    qed
  qed
qed

lemma nameWalk_trans:
  "nameWalk fd enc q r \<Longrightarrow> nameWalk fd enc p q \<Longrightarrow> nameWalk fd enc p r"
  by (induction rule: nameWalk.induct) (auto intro: nameWalk.intros)

lemma pathWalk_trans:
  "pathWalk fd h t enc q r \<Longrightarrow> pathWalk fd h t enc p q \<Longrightarrow> pathWalk fd h t enc p r"
  by (induction rule: pathWalk.induct) (auto intro: pathWalk.intros)

lemma extWalk_trans:
  "extWalk fd h t m enc q r \<Longrightarrow> extWalk fd h t m enc p q \<Longrightarrow> extWalk fd h t m enc p r"
  by (induction rule: extWalk.induct) (auto intro: extWalk.intros)

lemma nameLoop_leaves:
  "nameLoop fd h t enc p acc = Inr (ls, p') \<Longrightarrow> l \<in> set ls \<Longrightarrow>
     l \<in> set acc \<or> (\<exists>q. nameWalk fd enc p q \<and> fst (readNextStringFromFile fd q enc) \<noteq> []
                        \<and> readUInt16LE (recordAfter fd enc q) 16 = 0xffff
                        \<and> l = leafAt fd h t enc q)"
proof (induction fd h t enc p acc rule: nameLoop.induct)
  case (1 fd h t enc p acc)
  show ?case
  proof (cases "fst (readNextStringFromFile fd p enc) = []")
    case True
    with "1.prems" show ?thesis by (simp add: nameLoop_eq [of fd h t enc p])
  next
    case False
    note ne = this
    with "1.prems" have ok: "readUInt16LE (recordAfter fd enc p) 16 = 0xffff"
      and rec: "nameLoop fd h t enc (afterRecord fd enc p) (acc @ [leafAt fd h t enc p]) = Inr (ls, p')"
      by (auto simp: nameLoop_eq [of fd h t enc p] leafAt_def split: if_splits)
    have "l \<in> set (acc @ [leafAt fd h t enc p]) \<or>
          (\<exists>q. nameWalk fd enc (afterRecord fd enc p) q \<and> fst (readNextStringFromFile fd q enc) \<noteq> []
                        \<and> readUInt16LE (recordAfter fd enc q) 16 = 0xffff
                        \<and> l = leafAt fd h t enc q)"
      using "1.IH" [OF refl refl refl ne refl refl refl _ _ "1.prems"(2)] rec ok
      by (simp add: recordAfter_def afterRecord_def leafAt_def)
    moreover have step: "nameWalk fd enc p (afterRecord fd enc p)"
      using nameWalk_step [OF nameWalk_start ne ok] .
    moreover have "nameWalk fd enc p p" by (rule nameWalk_start)
    ultimately show ?thesis using ne ok nameWalk_trans [OF _ step] by auto
  qed
qed


lemma set_put: "set (put ob k v) \<subseteq> insert (k, v) (set ob)"
  by (induction ob) (auto split: if_splits)

lemma in_allLeaves:
  "(l \<in> set (allLeaves t)) = (\<exists>k b p ls. (k, b) \<in> set t \<and> (p, ls) \<in> set b \<and> l \<in> set ls)"
  by (force simp: allLeaves_def)

lemma in_put: "(k', v') \<in> set (put ob k v) \<Longrightarrow> (k', v') = (k, v) \<or> (k', v') \<in> set ob"
  using set_put [of ob k v] by blast

lemma pathLoop_leaves:
  "pathLoop fd h t enc p bucket = Inr (b, p') \<Longrightarrow> (k, ls) \<in> set b \<Longrightarrow> l \<in> set ls \<Longrightarrow>
     (\<exists>k' ls'. (k', ls') \<in> set bucket \<and> l \<in> set ls')
     \<or> (\<exists>pq. pathWalk fd h t enc p pq \<and> inPath fd h t enc pq l)"
proof (induction fd h t enc p bucket rule: pathLoop.induct)
  case (1 fd h t enc p bucket)
  let ?r = "readNextStringFromFile fd p enc"
  show ?case
  proof (cases "fst ?r = []")
    case True
    with "1.prems" show ?thesis by (auto simp: pathLoop_eq [of fd h t enc p])
  next
    case False
    note ne = this
    with "1.prems"(1) obtain leafArr p2
      where n: "nameLoop fd h t enc (p + snd ?r) [] = Inr (leafArr, p2)"
        and rec: "pathLoop fd h t enc p2 (put bucket (fst ?r) leafArr) = Inr (b, p')"
      by (auto simp: pathLoop_eq [of fd h t enc p] split: sum.splits)
    have step: "pathWalk fd h t enc p p2"
      using pathWalk_step [OF pathWalk_start ne n] .
    have "(\<exists>k' ls'. (k', ls') \<in> set (put bucket (fst ?r) leafArr) \<and> l \<in> set ls')
          \<or> (\<exists>pq. pathWalk fd h t enc p2 pq \<and> inPath fd h t enc pq l)"
      using "1.IH" [OF refl refl refl ne n refl rec "1.prems"(2) "1.prems"(3)] .
    then show ?thesis
    proof
      assume "\<exists>k' ls'. (k', ls') \<in> set (put bucket (fst ?r) leafArr) \<and> l \<in> set ls'"
      then obtain k' ls' where in1: "(k', ls') \<in> set (put bucket (fst ?r) leafArr)" and l: "l \<in> set ls'"
        by blast
      from in_put [OF in1] show ?thesis
      proof
        assume "(k', ls') = (fst ?r, leafArr)"
        with l have "l \<in> set leafArr" by simp
        from nameLoop_leaves [OF n this] have "inPath fd h t enc p l"
          using ne by (auto simp: inPath_def)
        then show ?thesis using pathWalk_start by blast
      next
        assume "(k', ls') \<in> set bucket"
        with l show ?thesis by blast
      qed
    next
      assume "\<exists>pq. pathWalk fd h t enc p2 pq \<and> inPath fd h t enc pq l"
      then show ?thesis using pathWalk_trans [OF _ step] by blast
    qed
  qed
qed

lemma extLoop_leaves:
  "extLoop fd h t m enc p tree0 = Inr (tr, p') \<Longrightarrow> l \<in> set (allLeaves tr) \<Longrightarrow>
     l \<in> set (allLeaves tree0)
     \<or> (\<exists>e. extWalk fd h t m enc p e \<and> e \<le> m \<and> inExt fd h t enc e l)"
proof (induction fd h t m enc p tree0 rule: extLoop.induct)
  case (1 fd h t m enc p tree0)
  let ?r = "readNextStringFromFile fd p enc"
  from "1.prems"(1) have pm: "p \<le> m"
    by (auto simp: extLoop_eq [of fd h t m enc p] split: if_splits)
  show ?case
  proof (cases "fst ?r = []")
    case True
    with "1.prems" pm show ?thesis by (auto simp: extLoop_eq [of fd h t m enc p])
  next
    case False
    note ne = this
    with "1.prems"(1) pm obtain bucket p2
      where n: "pathLoop fd h t enc (p + snd ?r) [] = Inr (bucket, p2)"
        and rec: "extLoop fd h t m enc p2 (put tree0 (fst ?r) bucket) = Inr (tr, p')"
      by (auto simp: extLoop_eq [of fd h t m enc p] split: sum.splits)
    have step: "extWalk fd h t m enc p p2"
      using extWalk_step [OF extWalk_start pm ne n] .
    have npm: "\<not> m < p" using pm by simp
    have "l \<in> set (allLeaves (put tree0 (fst ?r) bucket))
          \<or> (\<exists>e. extWalk fd h t m enc p2 e \<and> e \<le> m \<and> inExt fd h t enc e l)"
      using "1.IH" [OF npm refl refl refl ne n refl rec "1.prems"(2)] .
    then show ?thesis
    proof
      assume "l \<in> set (allLeaves (put tree0 (fst ?r) bucket))"
      then obtain k' b' k ls where in1: "(k', b') \<in> set (put tree0 (fst ?r) bucket)"
        and in2: "(k, ls) \<in> set b'" and l: "l \<in> set ls"
        unfolding in_allLeaves by blast
      from in_put [OF in1] show ?thesis
      proof
        assume "(k', b') = (fst ?r, bucket)"
        with in2 have "(k, ls) \<in> set bucket" by simp
        from pathLoop_leaves [OF n this l] have "inExt fd h t enc p l"
          using ne by (auto simp: inExt_def)
        then show ?thesis using extWalk_start pm by blast
      next
        assume "(k', b') \<in> set tree0"
        with in2 l have "l \<in> set (allLeaves tree0)" unfolding in_allLeaves by blast
        then show ?thesis by blast
      qed
    next
      assume "\<exists>e. extWalk fd h t m enc p2 e \<and> e \<le> m \<and> inExt fd h t enc e l"
      then show ?thesis using extWalk_trans [OF _ step] by blast
    qed
  qed
qed

lemma getFileIndexTree_leaves:
  assumes "getFileIndexTree fd h t m enc = Inr tr" and "l \<in> set (allLeaves tr)"
  shows "\<exists>q. parsedAt fd h t m enc l q"
proof -
  from assms(1) obtain p' where "extLoop fd h t m enc h [] = Inr (tr, p')"
    by (auto simp: getFileIndexTree_def split: sum.splits)
  from extLoop_leaves [OF this assms(2)]
  obtain e where "extWalk fd h t m enc h e" "e \<le> m" "inExt fd h t enc e l"
    by (auto simp: allLeaves_def)
  then show ?thesis
    unfolding inExt_def inPath_def parsedAt_def walksToName_def leafAt_def by blast
qed

lemma set_forIn: "set (forIn ob) = set ob"
  by (auto simp: forIn_def)





lemma indexFromFileInternal_Inr:
  assumes "indexFromFileInternal fd enc = Inr r"
  shows "magicField fd = MAGIC \<and> versionField fd \<noteq> 0x00030002
         \<and> vpkVersion r = versionField fd \<and> vpkTreeLength r = treeLengthField fd
         \<and> getFileIndexTree fd (if versionField fd = 2 then 28 else 12) (treeLengthField fd)
              (treeLengthField fd + (if versionField fd = 2 then 28 else 12)) enc
            = Inr (fileIndexTree r)"
  using assms
  by (auto simp: indexFromFileInternal_def Let_def magicField_def versionField_def
        treeLengthField_def split: if_splits sum.splits)

lemma indexFromFileInternal_respawn:
  "magicField fd = MAGIC \<Longrightarrow> versionField fd = 0x00030002
    \<Longrightarrow> indexFromFileInternal fd enc = Inl UnsupportedVariant"
  by (simp add: indexFromFileInternal_def Let_def magicField_def versionField_def)

lemma indexFromFileInternal_v1:
  "magicField fd = MAGIC \<Longrightarrow> versionField fd \<noteq> 0x00030002 \<Longrightarrow> versionField fd \<noteq> 2
    \<Longrightarrow> indexFromFileInternal fd enc =
        (case getFileIndexTree fd 12 (treeLengthField fd) (treeLengthField fd + 12) enc of
           Inl e \<Rightarrow> Inl e
         | Inr t \<Rightarrow> Inr \<lparr>fileIndexTree = t, vpkVersion = versionField fd,
                         vpkTreeLength = treeLengthField fd, vpkV2Metadata = None\<rparr>)"
  by (simp add: indexFromFileInternal_def Let_def magicField_def versionField_def treeLengthField_def
        split: sum.splits)

lemma in_indexEntries:
  "e \<in> set (indexEntries t) \<Longrightarrow>
     \<exists>ext p l. l \<in> set (allLeaves t) \<and> metadata' e = metadata l
       \<and> relPath' e = (if trim p \<noteq> [] then p @ ''/'' @ fileName' l @ ''.'' @ ext
                        else fileName' l @ ''.'' @ ext)"
  unfolding indexEntries_def in_allLeaves
  by (auto simp: set_forIn) blast+

lemma readV2Metadata_accepted:
  "hashesLengthField fd = 48 \<Longrightarrow> \<exists>v2. readV2Metadata fd p t = Inr v2"
  by (simp add: readV2Metadata_def Let_def hashesLengthField_def)

lemma indexFromFileInternal_accepted:
  assumes "headerAccepted fd"
  shows "indexFromFileInternal fd enc = Inl e
         \<longleftrightarrow> getFileIndexTree fd (headerLengthOf fd) (treeLengthField fd)
               (treeLengthField fd + headerLengthOf fd) enc = Inl e"
proof (cases "versionField fd = 2")
  case True
  with assms have "hashesLengthField fd = 48" by (simp add: headerAccepted_def)
  then obtain v2 where "readV2Metadata fd (length (readSync fd 12 0)) (treeLengthField fd) = Inr v2"
    using readV2Metadata_accepted by blast
  with assms True show ?thesis
    by (simp add: indexFromFileInternal_def Let_def headerAccepted_def headerLengthOf_def
          magicField_def versionField_def treeLengthField_def split: sum.splits)
next
  case False
  with assms show ?thesis
    using indexFromFileInternal_v1 [of fd enc]
    by (simp add: headerAccepted_def headerLengthOf_def split: sum.splits)
qed

lemma fromFile_versions:
  assumes "fs path = Some fd" and "versionField fd \<noteq> 1" and "versionField fd \<noteq> 2"
  shows "(\<exists>e. fromFile fs path enc = Inl e)
         \<and> (\<forall>r. indexFromFileInternal fd enc = Inr r \<longrightarrow> fromFile fs path enc = Inl VersionError)"
proof (cases "indexFromFileInternal fd enc")
  case (Inl e)
  with assms(1) show ?thesis by (simp add: fromFile_def)
next
  case (Inr r)
  then have "vpkVersion r = versionField fd" using indexFromFileInternal_Inr by blast
  with assms(2,3) have "setVersion newVpk (int (vpkVersion r)) = Inl (VersionError, newVpk)"
    by (auto simp: setVersion_def)
  with assms(1) Inr show ?thesis by (simp add: fromFile_def)
qed









section \<open>The concrete instances, evaluated\<close>

lemmas tree_eval = addFile_def Let_def fixRelPath_def trim_def isWhiteSpace_def has_def paths_def
  leaves_def mkLeaf_def newVpk_def removeFile_def getFile_def

lemma addFile_textfile: "addFile newVpk textfile = Inr oneFile"
  by (simp add: tree_eval textfile_def oneFile_def)




lemmas read_eval = readNextStringFromFile_def readSync_def fill_def alloc_def readUInt16LE_def
  readUInt32LE_def recordAfter_def afterRecord_def latin1_def leafMetadata_def char_of_def bit_0


subsection \<open>goodV1\<close>

lemma goodV1_reads:
  "readNextStringFromFile goodV1 12 latin1 = (''txt'', 4)"
  "readNextStringFromFile goodV1 16 latin1 = ('' '', 2)"
  "readNextStringFromFile goodV1 18 latin1 = (''a'', 2)"
  "readNextStringFromFile goodV1 38 latin1 = ('''', 1)"
  "readNextStringFromFile goodV1 39 latin1 = ('''', 1)"
  "readNextStringFromFile goodV1 40 latin1 = ('''', 1)"
  by (simp_all add: read_eval goodV1_def)

lemma goodV1_record:
  "recordAfter goodV1 latin1 18 =
     [0x43, 0xbe, 0xb7, 0xe8,  0, 0,  0xff, 0x7f,  0, 0, 0, 0,  1, 0, 0, 0,  0xff, 0xff]"
  "afterRecord goodV1 latin1 18 = 38"
  by (simp_all add: read_eval goodV1_def)

lemma goodV1_leaf:
  "\<lparr>fileName' = ''a'',
    metadata = leafMetadata
      [0x43, 0xbe, 0xb7, 0xe8,  0, 0,  0xff, 0x7f,  0, 0, 0, 0,  1, 0, 0, 0,  0xff, 0xff] h t\<rparr>
   = leafA (h + t)"
  by (simp add: leafMetadata_def readUInt16LE_def readUInt32LE_def leafA_def)

lemma goodV1_leafAt: "leafAt goodV1 h t latin1 18 = leafA (h + t)"
  by (simp add: leafAt_def goodV1_reads goodV1_record goodV1_leaf)

lemma goodV1_nameLoop: "nameLoop goodV1 h t latin1 18 [] = Inr ([leafA (h + t)], 39)"
  apply (subst nameLoop_eq)
  apply (simp add: goodV1_reads goodV1_record readUInt16LE_def)
  apply (subst nameLoop_eq)
  apply (simp add: goodV1_reads goodV1_leaf)
  done

lemma goodV1_pathLoop: "pathLoop goodV1 h t latin1 16 [] = Inr ([('' '', [leafA (h + t)])], 40)"
  apply (subst pathLoop_eq)
  apply (simp add: goodV1_reads goodV1_nameLoop)
  apply (subst pathLoop_eq)
  apply (simp add: goodV1_reads)
  done

lemma goodV1_tree:
  "extLoop goodV1 12 29 41 latin1 12 [] = Inr ([(''txt'', [('' '', [leafA 41])])], 41)"
  apply (subst extLoop_eq)
  apply (simp add: goodV1_reads goodV1_pathLoop)
  apply (subst extLoop_eq)
  apply (simp add: goodV1_reads)
  done

lemma goodV1_short: "extLoop goodV1 12 1 13 latin1 12 [] = Inl IndexOutOfBounds"
  apply (subst extLoop_eq)
  apply (simp add: goodV1_reads goodV1_pathLoop)
  apply (subst extLoop_eq)
  apply simp
  done

lemma goodV1_header:
  "magicField goodV1 = MAGIC" "versionField goodV1 = 1" "treeLengthField goodV1 = 29"
  by (simp_all add: magicField_def versionField_def treeLengthField_def MAGIC_def read_eval
        goodV1_def)



lemma goodV1_index:
  "indexFromFile (disk goodV1) ''/pak.vpk'' latin1 =
     Inr [\<lparr>relPath' = ''a.txt'', metadata' = metadata (leafA 41)\<rparr>]"
proof -
  have "getFileIndexTree goodV1 12 29 41 latin1 = Inr [(''txt'', [('' '', [leafA 41])])]"
    by (simp add: getFileIndexTree_def goodV1_tree)
  then have "indexFromFileInternal goodV1 latin1 =
      Inr \<lparr>fileIndexTree = [(''txt'', [('' '', [leafA 41])])], vpkVersion = 1,
           vpkTreeLength = 29, vpkV2Metadata = None\<rparr>"
    using indexFromFileInternal_v1 [of goodV1 latin1] by (simp add: goodV1_header)
  then show ?thesis
    by (simp add: indexFromFile_def disk_def indexEntries_def forIn_def arrayIndex_def
          isDigit_def trim_def isWhiteSpace_def leafA_def)
qed

subsection \<open>twoNames\<close>

lemma twoNames_reads:
  "readNextStringFromFile twoNames 12 latin1 = (''txt'', 4)"
  "readNextStringFromFile twoNames 16 latin1 = ('' '', 2)"
  "readNextStringFromFile twoNames 18 latin1 = (''a'', 2)"
  "readNextStringFromFile twoNames 38 latin1 = (''b'', 2)"
  by (simp_all add: read_eval twoNames_def)

lemma twoNames_records:
  "readUInt16LE (recordAfter twoNames latin1 18) 16 = 0xffff"
  "afterRecord twoNames latin1 18 = 38"
  "readUInt16LE (recordAfter twoNames latin1 38) 16 = 0xff"
  by (simp_all add: read_eval twoNames_def)

lemma twoNames_walks: "walksToName twoNames 12 49 61 latin1 38"
proof -
  have "nameWalk twoNames latin1 18 (afterRecord twoNames latin1 18)"
    by (rule nameWalk_step [OF nameWalk_start]) (simp_all add: twoNames_reads twoNames_records)
  then have "nameWalk twoNames latin1 18 38" by (simp add: twoNames_records)
  then show ?thesis
    unfolding walksToName_def
    apply -
    apply (rule exI [of _ 12])
    apply (rule exI [of _ 16])
    apply (simp add: twoNames_reads)
    apply (intro conjI)
     apply (rule extWalk_start)
    apply (rule pathWalk_start)
    done
qed

lemma twoNames_header:
  "magicField twoNames = MAGIC" "versionField twoNames = 1" "treeLengthField twoNames = 49"
  by (simp_all add: magicField_def versionField_def treeLengthField_def MAGIC_def read_eval
        twoNames_def)

subsection \<open>overrun\<close>







subsection \<open>version3 and respawn\<close>

lemma version3_header:
  "magicField version3 = MAGIC" "versionField version3 = 3" "treeLengthField version3 = 1"
  by (simp_all add: magicField_def versionField_def treeLengthField_def MAGIC_def read_eval
        version3_def)

lemma respawn_header:
  "magicField respawn = MAGIC" "versionField respawn = 0x00030002"
  by (simp_all add: magicField_def versionField_def treeLengthField_def MAGIC_def read_eval
        respawn_def)

lemma version3_tree: "getFileIndexTree version3 12 1 13 latin1 = Inr []"
  apply (simp add: getFileIndexTree_def)
  apply (subst extLoop_eq)
  apply (simp add: read_eval version3_def)
  done

lemma version3_internal:
  "indexFromFileInternal version3 latin1 =
     Inr \<lparr>fileIndexTree = [], vpkVersion = 3, vpkTreeLength = 1, vpkV2Metadata = None\<rparr>"
  using indexFromFileInternal_v1 [of version3 latin1] version3_tree
  by (simp add: version3_header)

lemma version3_index: "indexFromFile (disk version3) ''/pak.vpk'' latin1 = Inr []"
  by (simp add: indexFromFile_def disk_def version3_internal indexEntries_def forIn_def)

lemma version3_fromFile: "fromFile (disk version3) ''/pak.vpk'' latin1 = Inl VersionError"
  by (simp add: fromFile_def disk_def version3_internal setVersion_def)

subsection \<open>Saving the concrete archives\<close>

lemma upt8: "[0..<8] = [0, 1, 2, 3, 4, 5, 6, 7 :: nat]"
  by (simp add: upt_rec)

lemma table_nth: "i < 256 \<Longrightarrow> crc32Table ! i = fold (\<lambda>k c. crcRound c) [0..<8] (of_nat i)"
  by (simp add: crc32Table_def makeCrc32Table_def)

lemma table_158: "crc32Table ! 158 = 0x17b7be43"
  by (simp add: table_nth upt8 crcRound_def)

lemma crc_a: "crc32 0 [97] 1 0 = 0xe8b7be43"
  by (simp add: crc32_def table_158 mask_eq_exp_minus_1)

lemma save_txt:
  "writeString latin1Bytes
     \<lparr>pak = [0x34, 0x12, 0xaa, 0x55,  1, 0, 0, 0,  29, 0, 0, 0], pakPos = 12,
      dataOffset = 41, embedLength = 0\<rparr> ''txt''
   = \<lparr>pak = [0x34, 0x12, 0xaa, 0x55,  1, 0, 0, 0,  29, 0, 0, 0,  0x74, 0x78, 0x74, 0],
      pakPos = 16, dataOffset = 41, embedLength = 0\<rparr>"
  by (simp add: writeString_def writeNul_def writeAt_def latin1Bytes_def)

lemma save_root:
  "writeString latin1Bytes
     \<lparr>pak = [0x34, 0x12, 0xaa, 0x55,  1, 0, 0, 0,  29, 0, 0, 0,  0x74, 0x78, 0x74, 0],
      pakPos = 16, dataOffset = 41, embedLength = 0\<rparr> (normRelPath CHR ''/'' '' '')
   = \<lparr>pak = [0x34, 0x12, 0xaa, 0x55,  1, 0, 0, 0,  29, 0, 0, 0,  0x74, 0x78, 0x74, 0,  0x20, 0],
      pakPos = 18, dataOffset = 41, embedLength = 0\<rparr>"
  by (simp add: writeString_def writeNul_def writeAt_def latin1Bytes_def normRelPath_def)

lemma save_name:
  "writeString latin1Bytes
     \<lparr>pak = [0x34, 0x12, 0xaa, 0x55,  1, 0, 0, 0,  29, 0, 0, 0,  0x74, 0x78, 0x74, 0,  0x20, 0],
      pakPos = 18, dataOffset = 41, embedLength = 0\<rparr> ''a''
   = \<lparr>pak = [0x34, 0x12, 0xaa, 0x55,  1, 0, 0, 0,  29, 0, 0, 0,  0x74, 0x78, 0x74, 0,  0x20, 0,
             0x61, 0],
      pakPos = 20, dataOffset = 41, embedLength = 0\<rparr>"
  by (simp add: writeString_def writeNul_def writeAt_def latin1Bytes_def)

lemma save_data:
  "writeAt [0x34, 0x12, 0xaa, 0x55,  1, 0, 0, 0,  29, 0, 0, 0,  0x74, 0x78, 0x74, 0,  0x20, 0,
             0x61, 0] 41 [97]
   = [0x34, 0x12, 0xaa, 0x55,  1, 0, 0, 0,  29, 0, 0, 0,  0x74, 0x78, 0x74, 0,  0x20, 0,
      0x61, 0,  0, 0, 0, 0,  0, 0,  0, 0,  0, 0, 0, 0,  0, 0, 0, 0,  0, 0,  0, 0, 0,  0x61]"
  by (simp add: writeAt_def eval_nat_numeral)


lemma save_meta:
  "writeAt [0x34, 0x12, 0xaa, 0x55,  1, 0, 0, 0,  29, 0, 0, 0,  0x74, 0x78, 0x74, 0,  0x20, 0,
      0x61, 0,  0, 0, 0, 0,  0, 0,  0, 0,  0, 0, 0, 0,  0, 0, 0, 0,  0, 0,  0, 0, 0,  0x61] 20
     (uint32LE c @ uint16LE 0 @ uint16LE 0x7fff @ uint32LE (41 - 29 - 12) @ uint32LE (42 - 41)
      @ uint16LE 0xffff)
   = [0x34, 0x12, 0xaa, 0x55,  1, 0, 0, 0,  29, 0, 0, 0,  0x74, 0x78, 0x74, 0,  0x20, 0,
      0x61, 0] @ uint32LE c @ [0, 0,  0xff, 0x7f,  0, 0, 0, 0,  1, 0, 0, 0,  0xff, 0xff,
      0, 0, 0,  0x61]"
  by (simp add: writeAt_def uint32LE_def uint16LE_def)

lemma save_leaf_buffer:
  "writeLeaf fs latin1Bytes 29 12
     \<lparr>pak = [0x34, 0x12, 0xaa, 0x55,  1, 0, 0, 0,  29, 0, 0, 0,  0x74, 0x78, 0x74, 0,  0x20, 0],
      pakPos = 18, dataOffset = 41, embedLength = 0\<rparr>
     \<lparr>fileName = ''a'', absoluteFilePath = None, fileData = Some (FromBuffer [97]),
      fileChunk = None\<rparr>
   = Inr \<lparr>pak = [0x34, 0x12, 0xaa, 0x55,  1, 0, 0, 0,  29, 0, 0, 0,  0x74, 0x78, 0x74, 0,
                  0x20, 0,  0x61, 0,
                  0, 0, 0, 0,  0, 0,  0xff, 0x7f,  0, 0, 0, 0,  1, 0, 0, 0,  0xff, 0xff,
                  0, 0, 0,  0x61],
          pakPos = 38, dataOffset = 42, embedLength = 1\<rparr>"
  using save_meta [of 0]
  by (simp add: writeLeaf_def writeData_def save_name save_data fitsUInt32_def)
     (simp add: uint32LE_def)


lemma crc_a_Suc: "crc32 0 [97] (Suc 0) 0 = 0xe8b7be43"
  using crc_a by simp

lemma copy_a: "copyFile [97] 0 0 out 41 = (0xe8b7be43, writeAt out 41 [97], 42)"
  apply (subst copyFile.simps)
  apply (simp add: readSync_def crc_a_Suc Let_def)
  apply (subst copyFile.simps)
  apply (simp add: readSync_def)
  done

lemma save_leaf_file:
  "writeLeaf sourceDisk latin1Bytes 29 12
     \<lparr>pak = [0x34, 0x12, 0xaa, 0x55,  1, 0, 0, 0,  29, 0, 0, 0,  0x74, 0x78, 0x74, 0,  0x20, 0],
      pakPos = 18, dataOffset = 41, embedLength = 0\<rparr>
     \<lparr>fileName = ''a'', absoluteFilePath = Some ''/a.txt'', fileData = None,
      fileChunk = None\<rparr>
   = Inr \<lparr>pak = [0x34, 0x12, 0xaa, 0x55,  1, 0, 0, 0,  29, 0, 0, 0,  0x74, 0x78, 0x74, 0,
                  0x20, 0,  0x61, 0,
                  0x43, 0xbe, 0xb7, 0xe8,  0, 0,  0xff, 0x7f,  0, 0, 0, 0,  1, 0, 0, 0,
                  0xff, 0xff,
                  0, 0, 0,  0x61],
          pakPos = 38, dataOffset = 42, embedLength = 1\<rparr>"
  using save_meta [of "0xe8b7be43"]
  by (simp add: writeLeaf_def writeData_def save_name save_data fitsUInt32_def sourceDisk_def
        copy_a)
     (simp add: uint32LE_def)

lemma save_tail:
  "pak (writeNul (writeNul (writeNul
     \<lparr>pak = [0x34, 0x12, 0xaa, 0x55,  1, 0, 0, 0,  29, 0, 0, 0,  0x74, 0x78, 0x74, 0,
             0x20, 0,  0x61, 0,  c0, c1, c2, c3,  0, 0,  0xff, 0x7f,  0, 0, 0, 0,  1, 0, 0, 0,
             0xff, 0xff,  0, 0, 0,  0x61],
      pakPos = 38, dataOffset = d, embedLength = n\<rparr>)))
   = [0x34, 0x12, 0xaa, 0x55,  1, 0, 0, 0,  29, 0, 0, 0,  0x74, 0x78, 0x74, 0,
      0x20, 0,  0x61, 0,  c0, c1, c2, c3,  0, 0,  0xff, 0x7f,  0, 0, 0, 0,  1, 0, 0, 0,
      0xff, 0xff,  0, 0, 0,  0x61]"
  by (simp add: writeNul_def writeAt_def)

lemma forIn_txt: "forIn [(''txt'', x)] = [(''txt'', x)]"
  by (simp add: forIn_def arrayIndex_def isDigit_def)

lemma forIn_root: "forIn [('' '', x)] = [('' '', x)]"
  by (simp add: forIn_def arrayIndex_def isDigit_def)

lemma header_v1:
  "writeAt [] 0 (uint32LE MAGIC @ uint32LE (Suc 0) @ uint32LE 29)
   = [0x34, 0x12, 0xaa, 0x55,  1, 0, 0, 0,  29, 0, 0, 0]"
  by (simp add: writeAt_def uint32LE_def MAGIC_def)

lemma save_oneFileV1:
  "saveToFile fs latin1Bytes CHR ''/'' md5 True oneFileV1 = Some (Inr savedV1)"
  by (simp add: saveToFile_def oneFileV1_def fitsUInt32_def header_v1 forIn_txt forIn_root
        save_txt save_root save_leaf_buffer save_tail savedV1_def)

lemma save_fromDisk:
  "saveToFile sourceDisk latin1Bytes CHR ''/'' md5 True fromDisk = Some (Inr goodV1)"
  by (simp add: saveToFile_def fromDisk_def fitsUInt32_def header_v1 forIn_txt forIn_root
        save_txt save_root save_leaf_file save_tail goodV1_def)

subsection \<open>Reading savedV1 back\<close>

lemma savedV1_reads:
  "readNextStringFromFile savedV1 12 latin1 = (''txt'', 4)"
  "readNextStringFromFile savedV1 16 latin1 = ('' '', 2)"
  "readNextStringFromFile savedV1 18 latin1 = (''a'', 2)"
  "readNextStringFromFile savedV1 38 latin1 = ('''', 1)"
  "readNextStringFromFile savedV1 39 latin1 = ('''', 1)"
  "readNextStringFromFile savedV1 40 latin1 = ('''', 1)"
  by (simp_all add: read_eval savedV1_def)

lemma savedV1_record:
  "recordAfter savedV1 latin1 18 =
     [0, 0, 0, 0,  0, 0,  0xff, 0x7f,  0, 0, 0, 0,  1, 0, 0, 0,  0xff, 0xff]"
  "afterRecord savedV1 latin1 18 = 38"
  by (simp_all add: read_eval savedV1_def)

lemma savedV1_leaf:
  "\<lparr>fileName' = ''a'',
    metadata = leafMetadata
      [0, 0, 0, 0,  0, 0,  0xff, 0x7f,  0, 0, 0, 0,  1, 0, 0, 0,  0xff, 0xff] 12 29\<rparr>
   = leafSaved"
  by (simp add: leafMetadata_def readUInt16LE_def readUInt32LE_def leafSaved_def)

lemma savedV1_nameLoop: "nameLoop savedV1 12 29 latin1 18 [] = Inr ([leafSaved], 39)"
  apply (subst nameLoop_eq)
  apply (simp add: savedV1_reads savedV1_record readUInt16LE_def)
  apply (subst nameLoop_eq)
  apply (simp add: savedV1_reads savedV1_leaf)
  done

lemma savedV1_pathLoop: "pathLoop savedV1 12 29 latin1 16 [] = Inr ([('' '', [leafSaved])], 40)"
  apply (subst pathLoop_eq)
  apply (simp add: savedV1_reads savedV1_nameLoop)
  apply (subst pathLoop_eq)
  apply (simp add: savedV1_reads)
  done

lemma savedV1_tree:
  "getFileIndexTree savedV1 12 29 41 latin1 = Inr [(''txt'', [('' '', [leafSaved])])]"
  apply (simp add: getFileIndexTree_def)
  apply (subst extLoop_eq)
  apply (simp add: savedV1_reads savedV1_pathLoop)
  apply (subst extLoop_eq)
  apply (simp add: savedV1_reads)
  done

lemma savedV1_header:
  "magicField savedV1 = MAGIC" "versionField savedV1 = 1" "treeLengthField savedV1 = 29"
  by (simp_all add: magicField_def versionField_def treeLengthField_def MAGIC_def read_eval
        savedV1_def)

lemma savedV1_internal:
  "indexFromFileInternal savedV1 latin1 =
      Inr \<lparr>fileIndexTree = [(''txt'', [('' '', [leafSaved])])], vpkVersion = 1,
           vpkTreeLength = 29, vpkV2Metadata = None\<rparr>"
  using indexFromFileInternal_v1 [of savedV1 latin1] savedV1_tree
  by (simp add: savedV1_header)

lemma goodV1_internal:
  "indexFromFileInternal goodV1 latin1 =
      Inr \<lparr>fileIndexTree = [(''txt'', [('' '', [leafA 41])])], vpkVersion = 1,
           vpkTreeLength = 29, vpkV2Metadata = None\<rparr>"
proof -
  have "getFileIndexTree goodV1 12 29 41 latin1 = Inr [(''txt'', [('' '', [leafA 41])])]"
    by (simp add: getFileIndexTree_def goodV1_tree)
  then show ?thesis
    using indexFromFileInternal_v1 [of goodV1 latin1] by (simp add: goodV1_header)
qed

lemma savedV1_index:
  "indexFromFile (disk savedV1) ''/pak.vpk'' latin1 =
     Inr [\<lparr>relPath' = ''a.txt'', metadata' = metadata leafSaved\<rparr>]"
  by (simp add: indexFromFile_def disk_def savedV1_internal indexEntries_def forIn_txt forIn_root
        trim_def isWhiteSpace_def leafSaved_def)

lemma savedV1_crc: "crcOfRegion savedV1 1 41 0 0 = 0xe8b7be43"
  apply (subst crcOfRegion.simps)
  apply (simp add: readSync_def savedV1_def crc_a_Suc Let_def)
  apply (subst crcOfRegion.simps)
  apply (simp add: readSync_def)
  done

lemma goodV1_crc: "crcOfRegion goodV1 1 41 0 0 = 0xe8b7be43"
  apply (subst crcOfRegion.simps)
  apply (simp add: readSync_def goodV1_def crc_a_Suc Let_def)
  apply (subst crcOfRegion.simps)
  apply (simp add: readSync_def)
  done

lemma savedV1_verify:
  "verifyFile (disk savedV1) ''/pak.vpk'' latin1 md5
     = Some (Inr [CrcMismatch ''a.txt'' 0 0xe8b7be43])"
  using savedV1_crc
  by (simp add: verifyFile_def disk_def savedV1_internal crcMismatches_def forIn_txt forIn_root
        trim_def isWhiteSpace_def leafSaved_def)

lemma goodV1_verify: "verifyFile (disk goodV1) ''/pak.vpk'' latin1 md5 = Some (Inr [])"
  using goodV1_crc
  by (simp add: verifyFile_def disk_def goodV1_internal crcMismatches_def forIn_txt forIn_root
        trim_def isWhiteSpace_def leafA_def)

section \<open>The claims about the tree operations\<close>









text \<open>
  Claim C2. \<open>addFile\<close> keeps the tracked tree length equal to the formula of the spec
  (\<open>addFile_keeps_exact\<close>), and \<open>removeFile\<close> never changes the tracked length
  (\<open>removeFile_treeLength\<close>) although it takes an entry out of the tree. After adding
  \<open>a.txt\<close> to the empty archive and removing it again the formula gives 9 and the tracked
  length is still 29; the file count is still 1.
\<close>

theorem removeFile_leaves_treeLength:
  "addFile newVpk textfile = Inr oneFile
   \<and> treeLength oneFile = specTreeLength (tree oneFile)
   \<and> getFiles (removeFile oneFile ''txt'' [] ''a'') = []
   \<and> specTreeLength (tree (removeFile oneFile ''txt'' [] ''a'')) = 9
   \<and> treeLength (removeFile oneFile ''txt'' [] ''a'') = 29
   \<and> fileCount (removeFile oneFile ''txt'' [] ''a'') = 1"
  by (simp add: addFile_textfile)
     (simp add: tree_eval oneFile_def specTreeLength_def extBytes_def pathBytes_def leafBytes_def
        getFiles_def forIn_def arrayIndex_def isDigit_def)

section \<open>The claims about reading a file\<close>

text \<open>
  Claim C8. When the walk of the index comes to read a file name and the record after it
  has a suffix other than \<open>0xffff\<close>, \<open>getFileIndexTree\<close> throws the corrupt-index error:
  the result is the error and no tree, whatever the walk had built before. For a file
  whose header is accepted, \<open>indexFromFile\<close> and \<open>fromFile\<close> throw the same error.
\<close>

theorem corrupt_suffix_fails:
  assumes w: "walksToName fd h t m enc q"
    and name: "fst (readNextStringFromFile fd q enc) \<noteq> []"
    and bad: "readUInt16LE (recordAfter fd enc q) 16 \<noteq> 0xffff"
  shows "getFileIndexTree fd h t m enc = Inl CorruptEntry
         \<and> (fs path = Some fd \<and> headerAccepted fd \<and> h = headerLengthOf fd
              \<and> t = treeLengthField fd \<and> m = t + h
             \<longrightarrow> indexFromFile fs path enc = Inl CorruptEntry
                 \<and> fromFile fs path enc = Inl CorruptEntry)"
proof -
  from w obtain e p where ew: "extWalk fd h t m enc h e" and em: "e \<le> m"
    and en: "fst (readNextStringFromFile fd e enc) \<noteq> []"
    and pw: "pathWalk fd h t enc (e + snd (readNextStringFromFile fd e enc)) p"
    and pn: "fst (readNextStringFromFile fd p enc) \<noteq> []"
    and nw: "nameWalk fd enc (p + snd (readNextStringFromFile fd p enc)) q"
    unfolding walksToName_def by blast
  have q: "\<And>acc. nameLoop fd h t enc q acc = Inl CorruptEntry"
    using name bad by (subst nameLoop_eq) simp
  have "nameLoop fd h t enc (p + snd (readNextStringFromFile fd p enc)) [] = Inl CorruptEntry"
    using nameWalk_loop [OF nw, of h t "[]"] q by auto
  then have p: "\<And>b. pathLoop fd h t enc p b = Inl CorruptEntry"
    using pn by (subst pathLoop_eq) simp
  have "pathLoop fd h t enc (e + snd (readNextStringFromFile fd e enc)) [] = Inl CorruptEntry"
    using pathWalk_loop [OF pw, of "[]"] p by auto
  then have e: "\<And>t0. extLoop fd h t m enc e t0 = Inl CorruptEntry"
    using en em by (subst extLoop_eq) simp
  have "extLoop fd h t m enc h [] = Inl CorruptEntry"
    using extWalk_loop [OF ew, of "[]"] e by auto
  then have g: "getFileIndexTree fd h t m enc = Inl CorruptEntry"
    by (simp add: getFileIndexTree_def)
  moreover have "indexFromFile fs path enc = Inl CorruptEntry \<and> fromFile fs path enc = Inl CorruptEntry"
    if "fs path = Some fd" "headerAccepted fd" "h = headerLengthOf fd" "t = treeLengthField fd"
      "m = t + h"
  proof -
    from that g have "indexFromFileInternal fd enc = Inl CorruptEntry"
      using indexFromFileInternal_accepted [of fd enc CorruptEntry] by simp
    with that(1) show ?thesis by (simp add: indexFromFile_def fromFile_def)
  qed
  ultimately show ?thesis by blast
qed

theorem corrupt_suffix_fails_witness:
  "walksToName twoNames 12 49 61 latin1 38
   \<and> fst (readNextStringFromFile twoNames 38 latin1) = ''b''
   \<and> readUInt16LE (recordAfter twoNames latin1 38) 16 = 0xff
   \<and> getFileIndexTree twoNames 12 49 61 latin1 = Inl CorruptEntry
   \<and> indexFromFile (disk twoNames) ''/pak.vpk'' latin1 = Inl CorruptEntry
   \<and> fromFile (disk twoNames) ''/pak.vpk'' latin1 = Inl CorruptEntry"
proof -
  have n: "fst (readNextStringFromFile twoNames 38 latin1) \<noteq> []"
    and b: "readUInt16LE (recordAfter twoNames latin1 38) 16 \<noteq> 0xffff"
    by (simp_all add: twoNames_reads twoNames_records)
  have acc: "headerAccepted twoNames" "headerLengthOf twoNames = 12"
    by (simp_all add: headerAccepted_def headerLengthOf_def twoNames_header)
  show ?thesis
    using corrupt_suffix_fails [OF twoNames_walks n b, of "disk twoNames" "''/pak.vpk''"] acc
    by (simp add: twoNames_walks twoNames_reads twoNames_records twoNames_header disk_def)
qed

text \<open>
  Claim C4. Every entry that \<open>indexFromFile\<close> returns was built from a file name that
  the walk read at some position \<open>q\<close>, and its \<open>archiveOffset\<close> is the offset field of
  the record after that name plus the tree length plus the header length. This holds
  whatever the archive index field is, so also when it is \<open>0x7fff\<close>.
\<close>

theorem archiveOffset_absolute:
  assumes "fs path = Some fd" and "indexFromFile fs path enc = Inr entries"
    and "e \<in> set entries"
  shows "\<exists>q. walksToName fd (headerLengthOf fd) (treeLengthField fd)
                (treeLengthField fd + headerLengthOf fd) enc q
            \<and> metadata' e = metadata (leafAt fd (headerLengthOf fd) (treeLengthField fd) enc q)
            \<and> archiveOffset (metadata' e)
                = readUInt32LE (recordAfter fd enc q) 8 + treeLengthField fd + headerLengthOf fd"
proof -
  from assms(1,2) obtain r where r: "indexFromFileInternal fd enc = Inr r"
    and es: "entries = indexEntries (fileIndexTree r)"
    by (auto simp: indexFromFile_def split: sum.splits)
  from indexFromFileInternal_Inr [OF r]
  have g: "getFileIndexTree fd (headerLengthOf fd) (treeLengthField fd)
             (treeLengthField fd + headerLengthOf fd) enc = Inr (fileIndexTree r)"
    by (simp add: headerLengthOf_def)
  from assms(3) es obtain l where l: "l \<in> set (allLeaves (fileIndexTree r))"
    and m: "metadata' e = metadata l"
    using in_indexEntries by blast
  from getFileIndexTree_leaves [OF g l] obtain q
    where "parsedAt fd (headerLengthOf fd) (treeLengthField fd)
             (treeLengthField fd + headerLengthOf fd) enc l q" ..
  then show ?thesis
    using m by (auto simp: parsedAt_def leafAt_def leafMetadata_def Let_def)
qed

theorem archiveOffset_absolute_witness:
  "disk goodV1 ''/pak.vpk'' = Some goodV1
   \<and> indexFromFile (disk goodV1) ''/pak.vpk'' latin1
       = Inr [\<lparr>relPath' = ''a.txt'', metadata' = metadata (leafA 41)\<rparr>]
   \<and> (\<exists>q. walksToName goodV1 12 29 41 latin1 q
          \<and> metadata (leafA 41) = metadata (leafAt goodV1 12 29 latin1 q)
          \<and> archiveOffset (metadata (leafA 41))
              = readUInt32LE (recordAfter goodV1 latin1 q) 8 + 29 + 12)
   \<and> archiveOffset (metadata (leafA 41)) = 41"
proof -
  have d: "disk goodV1 ''/pak.vpk'' = Some goodV1" by (simp add: disk_def)
  have h: "headerLengthOf goodV1 = 12" by (simp add: headerLengthOf_def goodV1_header)
  show ?thesis
    using archiveOffset_absolute [OF d goodV1_index, of "\<lparr>relPath' = ''a.txt'', metadata' = metadata (leafA 41)\<rparr>"]
    by (simp add: d goodV1_index h goodV1_header leafA_def)
qed




text \<open>
  Claim C5, amended. With the right magic, the version \<open>0x00030002\<close> makes \<open>fromFile\<close>
  and \<open>indexFromFile\<close> throw the unsupported-variant error. For any version other than 1
  and 2, \<open>fromFile\<close> throws: where the index itself can be read, the error is the one
  of \<open>setVersion\<close>. \<open>indexFromFile\<close> does not check the version: a file with another
  version than 2 (and not \<open>0x00030002\<close>) is read as a file with a header of 12 bytes,
  and its index is returned when the tree can be read.
\<close>

theorem version_handling:
  "(fs path = Some fd \<and> magicField fd = MAGIC \<and> versionField fd = 0x00030002
      \<longrightarrow> fromFile fs path enc = Inl UnsupportedVariant
          \<and> indexFromFile fs path enc = Inl UnsupportedVariant)
   \<and> (fs path = Some fd \<and> versionField fd \<noteq> 1 \<and> versionField fd \<noteq> 2
      \<longrightarrow> (\<exists>e. fromFile fs path enc = Inl e)
          \<and> (\<forall>r. indexFromFileInternal fd enc = Inr r
                \<longrightarrow> fromFile fs path enc = Inl VersionError))
   \<and> (fs path = Some fd \<and> magicField fd = MAGIC \<and> versionField fd \<noteq> 0x00030002
        \<and> versionField fd \<noteq> 2
      \<longrightarrow> indexFromFile fs path enc =
            (case getFileIndexTree fd 12 (treeLengthField fd) (treeLengthField fd + 12) enc of
               Inl e \<Rightarrow> Inl e
             | Inr t \<Rightarrow> Inr (indexEntries t)))"
proof -
  have one: "fromFile fs path enc = Inl UnsupportedVariant
          \<and> indexFromFile fs path enc = Inl UnsupportedVariant"
    if "fs path = Some fd \<and> magicField fd = MAGIC \<and> versionField fd = 0x00030002"
    using that indexFromFileInternal_respawn [of fd enc]
    by (simp add: fromFile_def indexFromFile_def)
  have two: "(\<exists>e. fromFile fs path enc = Inl e)
          \<and> (\<forall>r. indexFromFileInternal fd enc = Inr r
                \<longrightarrow> fromFile fs path enc = Inl VersionError)"
    if "fs path = Some fd \<and> versionField fd \<noteq> 1 \<and> versionField fd \<noteq> 2"
    using that fromFile_versions [of fs path fd enc] by blast
  have three: "indexFromFile fs path enc =
            (case getFileIndexTree fd 12 (treeLengthField fd) (treeLengthField fd + 12) enc of
               Inl e \<Rightarrow> Inl e
             | Inr t \<Rightarrow> Inr (indexEntries t))"
    if "fs path = Some fd \<and> magicField fd = MAGIC \<and> versionField fd \<noteq> 0x00030002
        \<and> versionField fd \<noteq> 2"
    using that indexFromFileInternal_v1 [of fd enc]
    by (simp add: indexFromFile_def split: sum.splits)
  from one two three show ?thesis by blast
qed

theorem version_handling_witness:
  "disk respawn ''/pak.vpk'' = Some respawn \<and> magicField respawn = MAGIC
   \<and> versionField respawn = 0x00030002
   \<and> fromFile (disk respawn) ''/pak.vpk'' latin1 = Inl UnsupportedVariant
   \<and> indexFromFile (disk respawn) ''/pak.vpk'' latin1 = Inl UnsupportedVariant
   \<and> disk version3 ''/pak.vpk'' = Some version3 \<and> magicField version3 = MAGIC
   \<and> versionField version3 = 3
   \<and> fromFile (disk version3) ''/pak.vpk'' latin1 = Inl VersionError
   \<and> indexFromFile (disk version3) ''/pak.vpk'' latin1 = Inr (indexEntries [])"
proof -
  have d: "disk respawn ''/pak.vpk'' = Some respawn" "disk version3 ''/pak.vpk'' = Some version3"
    by (simp_all add: disk_def)
  show ?thesis
    using version_handling [of "disk respawn" "''/pak.vpk''" respawn latin1]
      version_handling [of "disk version3" "''/pak.vpk''" version3 latin1]
      version3_internal version3_tree
    by (simp add: d respawn_header version3_header)
qed

text \<open>
  Claim C5 as stated fails on \<open>version3\<close>: the magic is right, the version is 3, and
  \<open>indexFromFile\<close> returns the (empty) index.
\<close>

theorem version_handling_counterexample:
  "magicField version3 = MAGIC \<and> versionField version3 = 3
   \<and> indexFromFile (disk version3) ''/pak.vpk'' latin1 = Inr []"
  by (simp add: version3_header version3_index)

subsection \<open>Saving and verifying\<close>

text \<open>
  Claim C1. The specification states that an archive built in memory and saved passes
  \<open>verifyFile\<close> with an empty mismatch list, whatever the source of its entries. The code
  does not do this for an entry whose data is a Buffer: in \<open>saveToFile\<close> the branch
  \<open>if (treeLeaf.fileData)\<close> writes the buffer and leaves \<open>checksum\<close> at its initial 0,
  while the two other branches fold \<open>crc32\<close> over what they copy. For the version 1
  archive holding the single entry \<open>a.txt\<close> with the one-byte Buffer \<open>a\<close>, the saved file
  is \<open>savedV1\<close>, whatever the file system and the digest; its index stores the CRC-32 0
  for the entry, the CRC-32 of the data is \<open>e8b7be43\<close>, and \<open>verifyFile\<close> on the saved file
  returns one CRC-32 mismatch. The same entry given by the path of a file holding the same
  byte is saved as \<open>goodV1\<close>, with the checksum, and \<open>verifyFile\<close> returns the empty list.
\<close>

theorem buffer_entry_saved_without_crc:
  "setVersion oneFile 1 = Inr oneFileV1
   \<and> saveToFile fs latin1Bytes CHR ''/'' md5 True oneFileV1 = Some (Inr savedV1)
   \<and> indexFromFile (disk savedV1) ''/pak.vpk'' latin1
       = Inr [\<lparr>relPath' = ''a.txt'',
               metadata' = \<lparr>crc32' = 0, preloadLength = 0, archiveIndex = 41,
                             archiveOffset = 41, fileLength = 1, suffix = 0xffff\<rparr>\<rparr>]
   \<and> unat (crc32 0 [97] 1 0) = 0xe8b7be43
   \<and> verifyFile (disk savedV1) ''/pak.vpk'' latin1 md5
       = Some (Inr [CrcMismatch ''a.txt'' 0 0xe8b7be43])
   \<and> saveToFile sourceDisk latin1Bytes CHR ''/'' md5 True fromDisk = Some (Inr goodV1)
   \<and> verifyFile (disk goodV1) ''/pak.vpk'' latin1 md5 = Some (Inr [])"
proof -
  have "setVersion oneFile 1 = Inr oneFileV1"
    by (simp add: setVersion_def oneFile_def oneFileV1_def)
  moreover have "unat (crc32 0 [97] 1 0) = 0xe8b7be43"
    by (simp add: crc_a_Suc)
  moreover have "indexFromFile (disk savedV1) ''/pak.vpk'' latin1
       = Inr [\<lparr>relPath' = ''a.txt'',
               metadata' = \<lparr>crc32' = 0, preloadLength = 0, archiveIndex = 41,
                             archiveOffset = 41, fileLength = 1, suffix = 0xffff\<rparr>\<rparr>]"
    using savedV1_index by (simp add: leafSaved_def)
  ultimately show ?thesis
    using save_oneFileV1 [of fs md5] savedV1_verify [of md5] save_fromDisk [of md5]
      goodV1_verify [of md5]
    by blast
qed

text \<open>
  The same evaluation with no file on disk and a digest that returns nothing: the range
  checks of \<open>saveToFile\<close> pass, and the mismatch does not depend on either.
\<close>

theorem buffer_entry_saved_without_crc_witness:
  "saveToFile (\<lambda>p. None) latin1Bytes CHR ''/'' (\<lambda>b. []) True oneFileV1 = Some (Inr savedV1)
   \<and> verifyFile (disk savedV1) ''/pak.vpk'' latin1 (\<lambda>b. [])
       = Some (Inr [CrcMismatch ''a.txt'' 0 0xe8b7be43])"
  using buffer_entry_saved_without_crc [of "\<lambda>p. None" "\<lambda>b. []"] by blast

end
